theory Spec2Isabelle
  imports Main "HOL-Library.Sublist"
begin

section \<open>JavaScript values\<close>

text \<open>
  The presets module works on untyped device replies (\<^verbatim>\<open>any\<close>), so the embedding starts
  with the values a parsed JSON reply can hold. Numbers of the protocol (ids, channels,
  grid sizes, flags, milliseconds) are integers; \<open>NaN\<close> is kept because \<^verbatim>\<open>Number(...)\<close>
  and arithmetic can produce it. Fractions, infinities and negative zero are outside the
  model.
\<close>

datatype number = NaN | Num int

text \<open>
  An object is the list of its own enumerable properties in the order \<^verbatim>\<open>Object.keys\<close>
  lists them; a real object has pairwise distinct keys, and a lookup takes the first
  entry of a key.
\<close>

datatype jsval =
    Undefined
  | Null
  | JBool bool
  | JNum number
  | JStr string
  | JArr "jsval list"
  | JObj "(string \<times> jsval) list"

text \<open>\<^verbatim>\<open>v == null\<close>, the test behind \<^verbatim>\<open>??\<close>, \<^verbatim>\<open>?.\<close> and \<^verbatim>\<open>!= null\<close>.\<close>

fun nullish :: "jsval \<Rightarrow> bool" where
  "nullish Undefined = True"
| "nullish Null = True"
| "nullish _ = False"

text \<open>\<^verbatim>\<open>a ?? b\<close>\<close>

definition coalesce :: "jsval \<Rightarrow> jsval \<Rightarrow> jsval" where
  "coalesce a b = (if nullish a then b else a)"

text \<open>\<^verbatim>\<open>ToBoolean\<close>: what \<^verbatim>\<open>if (v)\<close>, \<^verbatim>\<open>!v\<close> and \<^verbatim>\<open>v && ...\<close> test.\<close>

fun truthy :: "jsval \<Rightarrow> bool" where
  "truthy Undefined = False"
| "truthy Null = False"
| "truthy (JBool b) = b"
| "truthy (JNum NaN) = False"
| "truthy (JNum (Num i)) = (i \<noteq> 0)"
| "truthy (JStr s) = (s \<noteq> [])"
| "truthy (JArr xs) = True"
| "truthy (JObj es) = True"

text \<open>
  Property read \<^verbatim>\<open>v?.k\<close> and \<^verbatim>\<open>v.k\<close>. Every plain read \<^verbatim>\<open>v.k\<close> of the source is
  guarded so that \<open>v\<close> is not nullish, hence never raises. The keys read from a value that
  may be a string or an array are fixed names (never \<^verbatim>\<open>length\<close> or an index), for which
  strings and arrays have no property.
\<close>

fun get :: "jsval \<Rightarrow> string \<Rightarrow> jsval" where
  "get (JObj es) k = (case map_of es k of Some v \<Rightarrow> v | None \<Rightarrow> Undefined)"
| "get _ k = Undefined"

text \<open>\<^verbatim>\<open>k in v\<close> for an object \<open>v\<close> and a key that is no index.\<close>

fun has_key :: "jsval \<Rightarrow> string \<Rightarrow> bool" where
  "has_key (JObj es) k = (k \<in> set (map fst es))"
| "has_key _ k = False"

text \<open>\<^verbatim>\<open>Object.keys(v)\<close> of a plain object.\<close>

fun keys :: "jsval \<Rightarrow> string list" where
  "keys (JObj es) = map fst es"
| "keys _ = []"

text \<open>\<^verbatim>\<open>Array.isArray(v)\<close>\<close>

fun isArray :: "jsval \<Rightarrow> bool" where
  "isArray (JArr xs) = True"
| "isArray _ = False"

text \<open>\<^verbatim>\<open>typeof v === "object"\<close>, which holds of \<^verbatim>\<open>null\<close> and of arrays too.\<close>

fun typeof_object :: "jsval \<Rightarrow> bool" where
  "typeof_object Null = True"
| "typeof_object (JArr xs) = True"
| "typeof_object (JObj es) = True"
| "typeof_object _ = False"

text \<open>The elements of an array.\<close>

fun elems :: "jsval \<Rightarrow> jsval list" where
  "elems (JArr xs) = xs"
| "elems _ = []"

text \<open>
  \<^verbatim>\<open>v === n\<close> against a number and \<^verbatim>\<open>v === true\<close>: strict equality never converts, and
  \<open>NaN\<close> equals nothing.
\<close>

definition strict_eq_num :: "jsval \<Rightarrow> number \<Rightarrow> bool" where
  "strict_eq_num v n = (n \<noteq> NaN \<and> v = JNum n)"

definition flag_on :: "jsval \<Rightarrow> bool" where
  "flag_on flag = (strict_eq_num flag (Num 1) \<or> flag = JBool True)"

subsection \<open>Numbers\<close>

fun num_mult :: "number \<Rightarrow> number \<Rightarrow> number" where
  "num_mult (Num a) (Num b) = Num (a * b)"
| "num_mult _ _ = NaN"




subsection \<open>Errors\<close>

text \<open>
  What a call can throw: the transport's typed \<^verbatim>\<open>ReolinkHttpError\<close> (a response code and a
  message), or any other error, which \<open>Error\<close> stands for with its message: the
  \<^verbatim>\<open>Error\<close> the module throws on a failed validation, a failure of the transport that
  is no \<^verbatim>\<open>ReolinkHttpError\<close>, and the \<^verbatim>\<open>TypeError\<close> of a failed conversion.
\<close>

datatype error = ReolinkHttpError number string | Error string

text \<open>
  The \<^verbatim>\<open>TypeError\<close> of \<^verbatim>\<open>String(v)\<close> and \<^verbatim>\<open>Number(v)\<close> for an object that has no primitive
  value.
\<close>

definition TypeError :: error where
  "TypeError = Error ''Cannot convert object to primitive value''"

text \<open>Running the elements of a list in order; the first error ends the run.\<close>

fun collect :: "(error + 'a) list \<Rightarrow> error + 'a list" where
  "collect [] = Inr []"
| "collect (r # rs) =
     (case r of
        Inl e \<Rightarrow> Inl e
      | Inr x \<Rightarrow> (case collect rs of Inl e \<Rightarrow> Inl e | Inr xs \<Rightarrow> Inr (x # xs)))"

subsection \<open>Conversion to strings\<close>

definition digit_char :: "nat \<Rightarrow> char" where
  "digit_char d = char_of (48 + d)"

function string_of_nat :: "nat \<Rightarrow> string" where
  "string_of_nat n =
     (if n < 10 then [digit_char n] else string_of_nat (n div 10) @ [digit_char (n mod 10)])"
  by pat_completeness auto
termination
  by (relation "measure id") auto

declare string_of_nat.simps [simp del]

text \<open>
  \<^verbatim>\<open>String(n)\<close> of a number, also what a template literal inserts. (JavaScript switches
  to exponent notation from \<open>10\<^sup>2\<^sup>1\<close> on; ids and channels are far below.)
\<close>

fun string_of_number :: "number \<Rightarrow> string" where
  "string_of_number NaN = ''NaN''"
| "string_of_number (Num i) =
     (if i < 0 then CHR ''-'' # string_of_nat (nat (- i)) else string_of_nat (nat i))"

fun join_comma :: "string list \<Rightarrow> string" where
  "join_comma [] = []"
| "join_comma [s] = s"
| "join_comma (s # t # ss) = s @ '','' @ join_comma (t # ss)"

text \<open>
  \<^verbatim>\<open>String(v)\<close>. An array joins the strings of its elements with commas, a nullish
  element giving the empty string. A plain object gives \<^verbatim>\<open>[object Object]\<close> through the
  \<^verbatim>\<open>toString\<close> it inherits; an object parsed from JSON that has a property
  \<^verbatim>\<open>toString\<close> of its own hides that method by a value that cannot be called, the
  inherited \<^verbatim>\<open>valueOf\<close> gives back the object, and the conversion throws a
  \<^verbatim>\<open>TypeError\<close>.
\<close>

fun ToString :: "jsval \<Rightarrow> error + string" where
  "ToString Undefined = Inr ''undefined''"
| "ToString Null = Inr ''null''"
| "ToString (JBool b) = Inr (if b then ''true'' else ''false'')"
| "ToString (JNum n) = Inr (string_of_number n)"
| "ToString (JStr s) = Inr s"
| "ToString (JArr xs) =
     (case collect (map (\<lambda>x. if nullish x then Inr [] else ToString x) xs) of
        Inl e \<Rightarrow> Inl e
      | Inr ss \<Rightarrow> Inr (join_comma ss))"
| "ToString (JObj es) =
     (if ''toString'' \<in> set (map fst es) then Inl TypeError else Inr ''[object Object]'')"

subsection \<open>Conversion to numbers\<close>

text \<open>
  \<^verbatim>\<open>Number(v)\<close>. The reading of a string as a numeric literal is the parameter \<open>N\<close>:
  the properties below hold whatever it is. (Its results that are no integers are outside
  the model of numbers, as fractions are throughout.) An array converts through its
  string; a plain object converts through \<^verbatim>\<open>[object Object]\<close>, which is no literal, or
  throws as \<^verbatim>\<open>String(v)\<close> does.
\<close>

fun ToNumber :: "(string \<Rightarrow> number) \<Rightarrow> jsval \<Rightarrow> error + number" where
  "ToNumber N Undefined = Inr NaN"
| "ToNumber N Null = Inr (Num 0)"
| "ToNumber N (JBool b) = Inr (if b then Num 1 else Num 0)"
| "ToNumber N (JNum n) = Inr n"
| "ToNumber N (JStr s) = Inr (N s)"
| "ToNumber N (JArr xs) =
     (case ToString (JArr xs) of Inl e \<Rightarrow> Inl e | Inr s \<Rightarrow> Inr (N s))"
| "ToNumber N (JObj es) =
     (case ToString (JObj es) of Inl e \<Rightarrow> Inl e | Inr s \<Rightarrow> Inr NaN)"

subsection \<open>Object literals with spread\<close>

fun index_entries :: "nat \<Rightarrow> jsval list \<Rightarrow> (string \<times> jsval) list" where
  "index_entries i [] = []"
| "index_entries i (x # xs) = (string_of_nat i, x) # index_entries (Suc i) xs"

text \<open>The own enumerable properties that \<^verbatim>\<open>{...v}\<close> copies.\<close>

fun own_entries :: "jsval \<Rightarrow> (string \<times> jsval) list" where
  "own_entries (JObj es) = es"
| "own_entries (JArr xs) = index_entries 0 xs"
| "own_entries (JStr s) = index_entries 0 (map (\<lambda>c. JStr [c]) s)"
| "own_entries _ = []"

text \<open>
  Defining a property in an object literal: an existing key keeps its place and takes
  the new value, a new key goes last. (That an enumeration lists index-like keys first
  is not modelled; no object built here is enumerated.)
\<close>

fun set_prop :: "(string \<times> jsval) list \<Rightarrow> string \<Rightarrow> jsval \<Rightarrow> (string \<times> jsval) list" where
  "set_prop [] k v = [(k, v)]"
| "set_prop ((k', v') # es) k v =
     (if k' = k then (k, v) # es else (k', v') # set_prop es k v)"

text \<open>\<^verbatim>\<open>{ <es>, ...v }\<close>\<close>

definition spread :: "(string \<times> jsval) list \<Rightarrow> jsval \<Rightarrow> (string \<times> jsval) list" where
  "spread es v = fold (\<lambda>(k, x) acc. set_prop acc k x) (own_entries v) es"

section \<open>The transport and the module state\<close>

text \<open>
  \<^verbatim>\<open>client.request(command, payload, action?)\<close> either returns the device's value or
  throws a \<^verbatim>\<open>ReolinkHttpError\<close> or any other error.
\<close>

datatype event = Request string jsval "number option" | Delay number

text \<open>
  The transport is a parameter: its answer may depend on everything issued before, which
  covers a device as well as a scripted mock.
\<close>

type_synonym transport = "event list \<Rightarrow> string \<Rightarrow> jsval \<Rightarrow> number option \<Rightarrow> error + jsval"

text \<open>
  The state of one \<^verbatim>\<open>PresetsModule\<close>: its two caches, and the trace of what it has
  issued so far (requests and settle delays, in order).
\<close>

record PresetsModule =
  trace :: "event list"
  abilityCache :: "number \<rightharpoonup> jsval"
  aiSupportCache :: "number \<rightharpoonup> string list"

definition request ::
  "transport \<Rightarrow> string \<Rightarrow> jsval \<Rightarrow> number option \<Rightarrow> PresetsModule
     \<Rightarrow> (error + jsval) \<times> PresetsModule" where
  "request T command payload action m =
     (T (trace m) command payload action,
      m\<lparr>trace := trace m @ [Request command payload action]\<rparr>)"


section \<open>Data model\<close>

record PtzPreset =
  id' :: number
  name :: string
  enable :: bool
  channel :: number

definition SUPPORTED_AI_TYPES :: "string list" where
  "SUPPORTED_AI_TYPES = [''people'', ''vehicle'', ''dog_cat'', ''face'']"

record GridArea =
  width :: number
  height :: number
  bits :: string

text \<open>
  \<^verbatim>\<open>PresetZones\<close>. \<open>ai\<close> lists the entries of the partial record in the order
  \<^verbatim>\<open>Object.entries\<close> gives them (for these keys the order in which they were added);
  the keys are strings, since the type \<^verbatim>\<open>AiType\<close> is erased at run time and
  \<^verbatim>\<open>setAiZone\<close> checks them. A mask is passed through without being looked at.
\<close>

record PresetZones =
  md :: "GridArea option"
  ai :: "(string \<times> GridArea option) list option"
  masks :: "jsval list option"


record GuardOptions =
  enable' :: "bool option"
  timeoutSec :: "number option"
  setCurrentAsGuard :: "bool option"
  goToGuardNow :: "bool option"


section \<open>Zone codec\<close>

definition normalizeMdScope :: "(string \<Rightarrow> number) \<Rightarrow> jsval \<Rightarrow> error + jsval" where
  "normalizeMdScope N scope =
     (let width = coalesce (get scope ''cols'') (get scope ''width'');
          height = coalesce (get scope ''rows'') (get scope ''height'');
          table = coalesce (coalesce (get scope ''table'') (get scope ''area'')) (get scope ''bits'')
      in case table of
           JStr t \<Rightarrow>
             if \<not> truthy width \<or> \<not> truthy height then
               Inl (Error ''Invalid motion detection scope received from device'')
             else
               (case ToNumber N width of
                  Inl e \<Rightarrow> Inl e
                | Inr w \<Rightarrow>
                    (case ToNumber N height of
                       Inl e \<Rightarrow> Inl e
                     | Inr h \<Rightarrow>
                         if Num (int (length t)) \<noteq> num_mult w h then
                           Inl (Error ''Motion detection scope size mismatch'')
                         else Inr (JObj [(''width'', width), (''height'', height),
                                         (''bits'', JStr t)])))
         | _ \<Rightarrow> Inl (Error ''Invalid motion detection scope received from device''))"

definition buildScope :: "GridArea \<Rightarrow> error + jsval" where
  "buildScope area =
     (if Num (int (length (bits area))) \<noteq> num_mult (width area) (height area) then
        Inl (Error ''Grid area bitstring size mismatch'')
      else Inr (JObj [(''width'', JNum (width area)), (''height'', JNum (height area)),
                      (''cols'', JNum (width area)), (''rows'', JNum (height area)),
                      (''table'', JStr (bits area))]))"

text \<open>A \<^verbatim>\<open>GridArea\<close> as the object \<^verbatim>\<open>{ width, height, bits }\<close> it is at run time.\<close>

definition GridArea_obj :: "GridArea \<Rightarrow> jsval" where
  "GridArea_obj area =
     JObj [(''width'', JNum (width area)), (''height'', JNum (height area)),
           (''bits'', JStr (bits area))]"

section \<open>Listing presets\<close>

text \<open>
  The test of the generic scan on the first element of an array:
  \<^verbatim>\<open>value[0] && typeof value[0] === 'object' && ('id' in value[0] || 'ID' in value[0])\<close>.
\<close>

definition looks_like_preset :: "jsval \<Rightarrow> bool" where
  "looks_like_preset v = (truthy v \<and> typeof_object v \<and> (has_key v ''id'' \<or> has_key v ''ID''))"

text \<open>
  The fallback loop over \<^verbatim>\<open>Object.keys(response)\<close>; the result is \<^verbatim>\<open>rawPresets\<close>,
  still \<^verbatim>\<open>null\<close> when no key matches.
\<close>

fun scan_keys :: "jsval \<Rightarrow> string list \<Rightarrow> jsval" where
  "scan_keys response [] = Null"
| "scan_keys response (key # rest) =
     (let v = get response key in
      if isArray v \<and> length (elems v) > 0 \<and> looks_like_preset (hd (elems v)) then v
      else if truthy v \<and> typeof_object v \<and> \<not> isArray v then
        (if truthy (get v ''preset'') \<and> isArray (get v ''preset'') then get v ''preset''
         else if truthy (get v ''Preset'') \<and> isArray (get v ''Preset'') then get v ''Preset''
         else scan_keys response rest)
      else scan_keys response rest)"

text \<open>The chain of \<^verbatim>\<open>if\<close>/\<^verbatim>\<open>else if\<close> that chooses \<^verbatim>\<open>rawPresets\<close>.\<close>

definition rawPresets :: "jsval \<Rightarrow> jsval" where
  "rawPresets response =
     (if truthy (get (get response ''PtzPreset'') ''preset'') then
        get (get response ''PtzPreset'') ''preset''
      else if isArray (get response ''PtzPreset'') then get response ''PtzPreset''
      else if truthy (get response ''preset'') then
        (if isArray (get response ''preset'') then get response ''preset''
         else JArr [get response ''preset''])
      else if truthy (get response ''Presets'') then
        (if isArray (get response ''Presets'') then get response ''Presets''
         else JArr [get response ''Presets''])
      else if isArray response then response
      else if truthy response \<and> typeof_object response then scan_keys response (keys response)
      else Null)"

text \<open>The filter and the map of the last statement.\<close>

definition has_id :: "jsval \<Rightarrow> bool" where
  "has_id preset =
     (\<not> nullish preset \<and> (\<not> nullish (get preset ''id'') \<or> \<not> nullish (get preset ''ID'')))"

text \<open>
  The callback of \<^verbatim>\<open>map\<close>: \<^verbatim>\<open>Number(...)\<close> for the id, \<^verbatim>\<open>String(...)\<close> for the name, the
  test of \<^verbatim>\<open>enable\<close>, \<^verbatim>\<open>Number(...)\<close> for the channel, in this order; a conversion that
  throws ends the callback, and nothing around it catches.
\<close>

definition toPtzPreset :: "(string \<Rightarrow> number) \<Rightarrow> number \<Rightarrow> jsval \<Rightarrow> error + PtzPreset" where
  "toPtzPreset N chan preset =
     (case ToNumber N (coalesce (coalesce (get preset ''id'') (get preset ''ID'')) (JNum (Num 0))) of
        Inl err \<Rightarrow> Inl err
      | Inr i \<Rightarrow>
          (case ToString (coalesce (coalesce (get preset ''name'') (get preset ''Name''))
                            (JStr (''Preset '' @ string_of_number i))) of
             Inl err \<Rightarrow> Inl err
           | Inr n \<Rightarrow>
               (let e = (if \<not> nullish (get preset ''enable'')
                         then strict_eq_num (get preset ''enable'') (Num 1)
                              \<or> get preset ''enable'' = JBool True
                         else True)
                in case ToNumber N (coalesce (coalesce (get preset ''channel'')
                                      (get preset ''Channel'')) (JNum chan)) of
                     Inl err \<Rightarrow> Inl err
                   | Inr presetChannel \<Rightarrow>
                       Inr \<lparr>id' = i, name = n, enable = e, channel = presetChannel\<rparr>)))"

text \<open>
  Everything \<^verbatim>\<open>listPresets\<close> does with the reply once it has it. (The debug and warning
  output is left out: it writes to the console and cannot fail on a JSON value.)
\<close>

definition decodePresets :: "(string \<Rightarrow> number) \<Rightarrow> number \<Rightarrow> jsval \<Rightarrow> error + PtzPreset list" where
  "decodePresets N chan response =
     (if \<not> truthy response then Inr []
      else
        let raw = rawPresets response;
            raw' = (if \<not> truthy raw \<or> \<not> isArray raw then JArr [] else raw)
        in collect (map (toPtzPreset N chan) (filter has_id (elems raw'))))"

definition listPresets ::
  "(string \<Rightarrow> number) \<Rightarrow> transport \<Rightarrow> number \<Rightarrow> PresetsModule
     \<Rightarrow> (error + PtzPreset list) \<times> PresetsModule" where
  "listPresets N T chan m =
     (case request T ''GetPtzPreset'' (JObj [(''channel'', JNum chan)]) (Some (Num 1)) m of
        (Inl e, m1) \<Rightarrow> (Inl e, m1)
      | (Inr response, m1) \<Rightarrow> (decodePresets N chan response, m1))"

section \<open>Moving to a preset, guard\<close>



text \<open>The object literal \<^verbatim>\<open>{ PtzGuard: { ... } }\<close> that \<^verbatim>\<open>setGuard\<close> sends.\<close>

definition guardPayload :: "number \<Rightarrow> GuardOptions \<Rightarrow> number \<Rightarrow> jsval" where
  "guardPayload chan options timeout =
     JObj [(''PtzGuard'',
       JObj ([(''channel'', JNum chan)]
             @ (case enable' options of
                  None \<Rightarrow> []
                | Some en \<Rightarrow> [(''benable'', JNum (if en then Num 1 else Num 0))])
             @ (if setCurrentAsGuard options = Some True then [(''bexistPos'', JNum (Num 1))]
                else [])
             @ [(''timeout'', JNum timeout),
                (''cmdStr'', JStr (if goToGuardNow options = Some True then ''toPos''
                                   else ''setPos'')),
                (''bSaveCurrentPos'',
                   JNum (if setCurrentAsGuard options = Some True then Num 1 else Num 0))]))]"

definition setGuard ::
  "transport \<Rightarrow> number \<Rightarrow> GuardOptions \<Rightarrow> PresetsModule \<Rightarrow> (error + unit) \<times> PresetsModule" where
  "setGuard T chan options m =
     (let timeout = (case timeoutSec options of Some t \<Rightarrow> t | None \<Rightarrow> Num 60) in
      if timeout \<noteq> Num 60 then
        (Inl (Error ''Reolink guard timeout currently supports only 60 seconds''), m)
      else
        case request T ''SetPtzGuard'' (guardPayload chan options timeout) None m of
          (Inl e, m1) \<Rightarrow> (Inl e, m1)
        | (Inr _, m1) \<Rightarrow> (Inr (), m1))"

section \<open>Zones\<close>

text \<open>
  \<^verbatim>\<open>setMdZone\<close>: the \<^verbatim>\<open>try\<close> holds the read of the current configuration and the merge;
  only the request can throw there, and the \<^verbatim>\<open>catch\<close> rethrows a \<^verbatim>\<open>ReolinkHttpError\<close>
  and drops any other error. \<open>minimalMdAlarm\<close> is the initial value of
  \<^verbatim>\<open>mdAlarmPayload\<close>, \<open>mergeMdAlarm\<close> the object literal assigned on a successful read,
  \<open>writeMdAlarm\<close> the final \<^verbatim>\<open>SetMdAlarm\<close> request.
\<close>

definition mergeMdAlarm :: "number \<Rightarrow> jsval \<Rightarrow> string \<Rightarrow> jsval \<Rightarrow> jsval" where
  "mergeMdAlarm chan scope table mdAlarm =
     JObj (set_prop
            (set_prop
              (set_prop (spread [] mdAlarm) ''channel'' (JNum chan))
              ''scope'' (JObj (spread (spread [] (coalesce (get mdAlarm ''scope'') (JObj []))) scope)))
            ''table'' (JStr table))"

definition writeMdAlarm ::
  "transport \<Rightarrow> jsval \<Rightarrow> PresetsModule \<Rightarrow> (error + unit) \<times> PresetsModule" where
  "writeMdAlarm T mdAlarmPayload m =
     (case request T ''SetMdAlarm'' (JObj [(''MdAlarm'', mdAlarmPayload)]) None m of
        (Inl e, m1) \<Rightarrow> (Inl e, m1)
      | (Inr _, m1) \<Rightarrow> (Inr (), m1))"

definition minimalMdAlarm :: "number \<Rightarrow> jsval \<Rightarrow> string \<Rightarrow> jsval" where
  "minimalMdAlarm chan scope table =
     JObj [(''channel'', JNum chan), (''scope'', scope), (''table'', JStr table)]"

definition setMdZone ::
  "transport \<Rightarrow> number \<Rightarrow> GridArea \<Rightarrow> PresetsModule \<Rightarrow> (error + unit) \<times> PresetsModule" where
  "setMdZone T chan area m =
     (case buildScope area of
        Inl e \<Rightarrow> (Inl e, m)
      | Inr scope \<Rightarrow>
          (case request T ''GetMdAlarm'' (JObj [(''channel'', JNum chan)]) None m of
             (Inl (ReolinkHttpError code msg), m1) \<Rightarrow> (Inl (ReolinkHttpError code msg), m1)
           | (Inl (Error msg), m1) \<Rightarrow>
               writeMdAlarm T (minimalMdAlarm chan scope (bits area)) m1
           | (Inr current, m1) \<Rightarrow>
               (let mdAlarm = coalesce (get current ''MdAlarm'') current in
                if truthy mdAlarm \<and> typeof_object mdAlarm
                then writeMdAlarm T (mergeMdAlarm chan scope (bits area) mdAlarm) m1
                else writeMdAlarm T (minimalMdAlarm chan scope (bits area)) m1)))"

definition setAiZone ::
  "transport \<Rightarrow> number \<Rightarrow> string \<Rightarrow> GridArea \<Rightarrow> PresetsModule
     \<Rightarrow> (error + unit) \<times> PresetsModule" where
  "setAiZone T chan ai_type area m =
     (if ai_type \<notin> set SUPPORTED_AI_TYPES then
        (Inl (Error (''Unsupported AI type: '' @ ai_type)), m)
      else if Num (int (length (bits area))) \<noteq> num_mult (width area) (height area) then
        (Inl (Error ''Invalid AI zone bitstring length''), m)
      else
        case request T ''SetAlarmArea''
               (JObj [(''channel'', JNum chan), (''ai_type'', JStr ai_type),
                      (''width'', JNum (width area)), (''height'', JNum (height area)),
                      (''area'', JStr (bits area))]) None m of
          (Inl e, m1) \<Rightarrow> (Inl e, m1)
        | (Inr _, m1) \<Rightarrow> (Inr (), m1))"

definition setMasks ::
  "transport \<Rightarrow> number \<Rightarrow> jsval list \<Rightarrow> number \<Rightarrow> PresetsModule
     \<Rightarrow> (error + unit) \<times> PresetsModule" where
  "setMasks T chan ms en m =
     (case request T ''SetMask''
             (JObj [(''Mask'', JObj [(''channel'', JNum chan), (''enable'', JNum en),
                                     (''area'', JArr ms)])]) None m of
        (Inl e, m1) \<Rightarrow> (Inl e, m1)
      | (Inr _, m1) \<Rightarrow> (Inr (), m1))"

text \<open>The loop over \<^verbatim>\<open>Object.entries(zones.ai)\<close>, skipping an entry without an area.\<close>

fun applyAiZones ::
  "transport \<Rightarrow> number \<Rightarrow> (string \<times> GridArea option) list \<Rightarrow> PresetsModule
     \<Rightarrow> (error + unit) \<times> PresetsModule" where
  "applyAiZones T chan [] m = (Inr (), m)"
| "applyAiZones T chan ((type, None) # entries) m = applyAiZones T chan entries m"
| "applyAiZones T chan ((type, Some area) # entries) m =
     (case setAiZone T chan type area m of
        (Inl e, m1) \<Rightarrow> (Inl e, m1)
      | (Inr _, m1) \<Rightarrow> applyAiZones T chan entries m1)"

definition applyZonesForPreset ::
  "transport \<Rightarrow> number \<Rightarrow> number \<Rightarrow> PresetZones \<Rightarrow> PresetsModule
     \<Rightarrow> (error + unit) \<times> PresetsModule" where
  "applyZonesForPreset T chan presetId zones m =
     (case (case masks zones of
              Some ms \<Rightarrow> setMasks T chan ms (if length ms > 0 then Num 1 else Num 0) m
            | None \<Rightarrow> (Inr (), m)) of
        (Inl e, m1) \<Rightarrow> (Inl e, m1)
      | (Inr _, m1) \<Rightarrow>
          (case (case md zones of
                   Some area \<Rightarrow> setMdZone T chan area m1
                 | None \<Rightarrow> (Inr (), m1)) of
             (Inl e, m2) \<Rightarrow> (Inl e, m2)
           | (Inr _, m2) \<Rightarrow>
               (case ai zones of
                  Some entries \<Rightarrow> applyAiZones T chan entries m2
                | None \<Rightarrow> (Inr (), m2))))"

section \<open>Capability cache\<close>

definition upper_char :: "char \<Rightarrow> char" where
  "upper_char c =
     (let n = (of_char c :: nat) in if 97 \<le> n \<and> n \<le> 122 then char_of (n - 32) else c)"

text \<open>\<^verbatim>\<open>s.toUpperCase()\<close> on ASCII, which the four type names are.\<close>

definition toUpperCase :: "string \<Rightarrow> string" where
  "toUpperCase s = map upper_char s"

text \<open>
  \<^verbatim>\<open>getChannelAbility\<close>: a cached channel answers from the cache; otherwise one
  \<^verbatim>\<open>GetAbility\<close> request, whose failure is cached as the empty record.
\<close>

definition getChannelAbility ::
  "transport \<Rightarrow> number \<Rightarrow> PresetsModule \<Rightarrow> (error + jsval) \<times> PresetsModule" where
  "getChannelAbility T chan m =
     (case abilityCache m chan of
        Some cached \<Rightarrow> (Inr (coalesce cached Null), m)
      | None \<Rightarrow>
          (case request T ''GetAbility'' (JObj []) None m of
             (Inl e, m1) \<Rightarrow> (Inr Null, m1\<lparr>abilityCache := (abilityCache m1)(chan \<mapsto> JObj [])\<rparr>)
           | (Inr response, m1) \<Rightarrow>
               let ability = coalesce (coalesce (get response ''ability'') (get response ''Ability''))
                               response;
                   abilityChn = get ability ''abilityChn'';
                   channelAbility =
                     (if isArray abilityChn then
                        coalesce
                          (case find (\<lambda>item. strict_eq_num (get item ''channel'') chan)
                                  (elems abilityChn) of
                             Some item \<Rightarrow> item
                           | None \<Rightarrow> Undefined)
                          Null
                      else if truthy abilityChn \<and> typeof_object abilityChn then
                        coalesce
                          (coalesce (get abilityChn (string_of_number chan))
                                    (get abilityChn (''chn'' @ string_of_number chan)))
                          Null
                      else Null);
                   stored = coalesce (coalesce channelAbility ability) (JObj []);
                   m2 = m1\<lparr>abilityCache := (abilityCache m1)(chan \<mapsto> stored)\<rparr>
               in (Inr (coalesce stored Null), m2)))"

definition getAiCfg ::
  "transport \<Rightarrow> number option \<Rightarrow> PresetsModule \<Rightarrow> (error + jsval) \<times> PresetsModule" where
  "getAiCfg T chan m =
     (let payload = (case chan of None \<Rightarrow> JObj [] | Some c \<Rightarrow> JObj [(''channel'', JNum c)]) in
      case request T ''GetAiCfg'' payload (Some (Num 1)) m of
        (Inl e, m1) \<Rightarrow> (Inl e, m1)
      | (Inr cfg, m1) \<Rightarrow> (Inr (coalesce (get cfg ''AiCfg'') cfg), m1))"

text \<open>The first tier: the flags read from the ability record.\<close>

definition abilityFlags :: "jsval \<Rightarrow> string list" where
  "abilityFlags ability =
     (let aiFlags =
            coalesce (coalesce (coalesce (coalesce (get ability ''supportAi'')
              (get ability ''supportAI'')) (get ability ''ai'')) (get ability ''AI'')) ability
      in if truthy aiFlags \<and> typeof_object aiFlags then
           filter (\<lambda>type. flag_on (coalesce (coalesce (get aiFlags type)
                                     (get aiFlags (''support'' @ type)))
                                     (get aiFlags (''support'' @ toUpperCase type))))
                  SUPPORTED_AI_TYPES
         else [])"

text \<open>The second tier: the flags read from the AI configuration.\<close>

definition cfgFlags :: "jsval \<Rightarrow> string list" where
  "cfgFlags cfg =
     (let info = coalesce (coalesce (get cfg ''ability'') (get cfg ''Ability'')) cfg
      in filter (\<lambda>type. flag_on (get info type)) SUPPORTED_AI_TYPES)"

definition getSupportedAiTypes ::
  "transport \<Rightarrow> number \<Rightarrow> PresetsModule \<Rightarrow> (error + string list) \<times> PresetsModule" where
  "getSupportedAiTypes T chan m =
     (case aiSupportCache m chan of
        Some cached \<Rightarrow> (Inr cached, m)
      | None \<Rightarrow>
          let (supported, m1) =
                (case getChannelAbility T chan m of
                   (Inl e, m') \<Rightarrow> ([], m')
                 | (Inr ability, m') \<Rightarrow> (abilityFlags ability, m'));
              (supported', m2) =
                (if length supported = 0 then
                   (case getAiCfg T (Some chan) m1 of
                      (Inl e, m') \<Rightarrow> (supported, m')
                    | (Inr cfg, m') \<Rightarrow> (cfgFlags cfg, m'))
                 else (supported, m1))
          in (Inr supported', m2\<lparr>aiSupportCache := (aiSupportCache m2)(chan \<mapsto> supported')\<rparr>))"

section \<open>Vocabulary of the properties\<close>

text \<open>A module that has issued nothing and cached nothing.\<close>

definition fresh :: PresetsModule where
  "fresh = \<lparr>trace = [], abilityCache = Map.empty, aiSupportCache = Map.empty\<rparr>"

text \<open>What an operation started in \<open>m\<close> and ended in \<open>m'\<close> has added to the trace.\<close>

definition issued :: "PresetsModule \<Rightarrow> PresetsModule \<Rightarrow> event list" where
  "issued m m' = drop (length (trace m)) (trace m')"

subsection \<open>A reading of numeric literals\<close>

text \<open>
  The examples below need some reading of strings as numbers. \<open>decimal_literal\<close> reads
  what \<^verbatim>\<open>Number(s)\<close> reads the same way: the empty string as 0 and an optionally signed run
  of decimal digits, with blanks around it, as its value. It takes every other string to
  \<open>NaN\<close>, which \<^verbatim>\<open>Number(s)\<close> does not (hexadecimal, exponent, fraction and \<^verbatim>\<open>Infinity\<close>
  literals); no statement rests on that.
\<close>

definition is_space :: "char \<Rightarrow> bool" where
  "is_space c = (c \<in> {CHR '' '', CHR 0x09, CHR 0x0A, CHR 0x0B, CHR 0x0C, CHR 0x0D})"

definition trim :: "string \<Rightarrow> string" where
  "trim s = rev (dropWhile is_space (rev (dropWhile is_space s)))"

definition digit_of :: "char \<Rightarrow> nat option" where
  "digit_of c =
     (let n = (of_char c :: nat) in if 48 \<le> n \<and> n \<le> 57 then Some (n - 48) else None)"

fun digits_value :: "nat \<Rightarrow> string \<Rightarrow> nat option" where
  "digits_value acc [] = Some acc"
| "digits_value acc (c # cs) =
     (case digit_of c of None \<Rightarrow> None | Some d \<Rightarrow> digits_value (10 * acc + d) cs)"

definition decimal_value :: "string \<Rightarrow> nat option" where
  "decimal_value s = (if s = [] then None else digits_value 0 s)"

definition decimal_literal :: "string \<Rightarrow> number" where
  "decimal_literal s =
     (case trim s of
        [] \<Rightarrow> Num 0
      | c # cs \<Rightarrow>
          if c = CHR ''-'' then
            (case decimal_value cs of None \<Rightarrow> NaN | Some n \<Rightarrow> Num (- int n))
          else if c = CHR ''+'' then
            (case decimal_value cs of None \<Rightarrow> NaN | Some n \<Rightarrow> Num (int n))
          else
            (case decimal_value (c # cs) of None \<Rightarrow> NaN | Some n \<Rightarrow> Num (int n)))"

subsection \<open>Zone writes\<close>

text \<open>
  The device writes of the zone pipeline, read off the trace: a mask write with its
  \<^verbatim>\<open>enable\<close> flag, a motion-zone write, an AI-zone write with its \<^verbatim>\<open>ai_type\<close>. Reads
  (\<^verbatim>\<open>GetMdAlarm\<close>) are no writes.
\<close>

datatype zone_write = MaskWrite jsval | MdWrite | AiWrite jsval

fun write_of :: "event \<Rightarrow> zone_write option" where
  "write_of (Request command payload action) =
     (if command = ''SetMask'' then Some (MaskWrite (get (get payload ''Mask'') ''enable''))
      else if command = ''SetMdAlarm'' then Some MdWrite
      else if command = ''SetAlarmArea'' then Some (AiWrite (get payload ''ai_type''))
      else None)"
| "write_of (Delay ms) = None"

definition writes :: "event list \<Rightarrow> zone_write list" where
  "writes evs = List.map_filter write_of evs"

definition mask_writes :: "PresetZones \<Rightarrow> zone_write list" where
  "mask_writes zones =
     (case masks zones of
        None \<Rightarrow> []
      | Some ms \<Rightarrow> [MaskWrite (JNum (if ms \<noteq> [] then Num 1 else Num 0))])"

definition md_writes :: "PresetZones \<Rightarrow> zone_write list" where
  "md_writes zones = (case md zones of None \<Rightarrow> [] | Some area \<Rightarrow> [MdWrite])"

text \<open>The AI-zone writes in the order of the entries of \<^verbatim>\<open>zones.ai\<close>.\<close>

fun entry_writes :: "(string \<times> GridArea option) list \<Rightarrow> zone_write list" where
  "entry_writes [] = []"
| "entry_writes ((type, None) # entries) = entry_writes entries"
| "entry_writes ((type, Some area) # entries) = AiWrite (JStr type) # entry_writes entries"

definition writes_in_entry_order :: "PresetZones \<Rightarrow> zone_write list" where
  "writes_in_entry_order zones =
     mask_writes zones @ md_writes zones
     @ (case ai zones of None \<Rightarrow> [] | Some entries \<Rightarrow> entry_writes entries)"

text \<open>
  The AI-zone writes in the order of the enumeration \<^verbatim>\<open>people\<close>, \<^verbatim>\<open>vehicle\<close>,
  \<^verbatim>\<open>dog_cat\<close>, \<^verbatim>\<open>face\<close>, one for each type with a populated entry: the order the
  specification states.
\<close>

definition writes_in_enum_order :: "PresetZones \<Rightarrow> zone_write list" where
  "writes_in_enum_order zones =
     mask_writes zones @ md_writes zones
     @ (case ai zones of
          None \<Rightarrow> []
        | Some entries \<Rightarrow>
            map (\<lambda>type. AiWrite (JStr type))
              (filter (\<lambda>type. case map_of entries type of Some (Some area) \<Rightarrow> True | _ \<Rightarrow> False)
                 SUPPORTED_AI_TYPES))"

text \<open>
  An operation that started in \<open>m\<close> and ended as \<open>res\<close> has added to the trace events
  whose writes are a prefix of \<open>ws\<close>, and all of \<open>ws\<close> when it succeeded.
\<close>

definition performs ::
  "PresetsModule \<Rightarrow> (error + unit) \<times> PresetsModule \<Rightarrow> zone_write list \<Rightarrow> bool" where
  "performs m res ws =
     (\<exists>evs. trace (snd res) = trace m @ evs \<and> prefix (writes evs) ws
        \<and> (fst res = Inr () \<longrightarrow> writes evs = ws))"

subsection \<open>Reply shapes of the preset list\<close>

text \<open>
  The six decoders of the preset list in the words of the specification, each giving
  the raw list it extracts when it matches: \<^verbatim>\<open>value.PtzPreset.preset\<close> (array);
  \<^verbatim>\<open>value.PtzPreset\<close> itself, if an array; \<^verbatim>\<open>value.preset\<close> and \<^verbatim>\<open>value.Presets\<close>, an array
  or a lone object wrapped into a list of one; \<^verbatim>\<open>value\<close> itself, if an array; the generic
  scan.
\<close>

fun isObject :: "jsval \<Rightarrow> bool" where
  "isObject (JObj es) = True"
| "isObject _ = False"

definition decoder_PtzPreset_preset :: "jsval \<Rightarrow> jsval option" where
  "decoder_PtzPreset_preset v =
     (if isArray (get (get v ''PtzPreset'') ''preset'')
      then Some (get (get v ''PtzPreset'') ''preset'') else None)"

definition decoder_PtzPreset_array :: "jsval \<Rightarrow> jsval option" where
  "decoder_PtzPreset_array v =
     (if isArray (get v ''PtzPreset'') then Some (get v ''PtzPreset'') else None)"

definition array_or_lone :: "jsval \<Rightarrow> jsval option" where
  "array_or_lone v =
     (if isArray v then Some v else if isObject v then Some (JArr [v]) else None)"

definition decoder_preset :: "jsval \<Rightarrow> jsval option" where
  "decoder_preset v = array_or_lone (get v ''preset'')"

definition decoder_Presets :: "jsval \<Rightarrow> jsval option" where
  "decoder_Presets v = array_or_lone (get v ''Presets'')"

definition decoder_array :: "jsval \<Rightarrow> jsval option" where
  "decoder_array v = (if isArray v then Some v else None)"

text \<open>
  The generic scan accepts a property value that is a non-empty array whose first element
  is an object containing \<^verbatim>\<open>id\<close> or \<^verbatim>\<open>ID\<close>, and it accepts an object that exposes \<^verbatim>\<open>preset\<close>
  or \<^verbatim>\<open>Preset\<close> as an array; it takes the first property, in key order, that it accepts.
\<close>

fun preset_tuple :: "jsval \<Rightarrow> bool" where
  "preset_tuple (JObj es) = (''id'' \<in> set (map fst es) \<or> ''ID'' \<in> set (map fst es))"
| "preset_tuple _ = False"

fun accepted :: "jsval \<Rightarrow> jsval option" where
  "accepted (JArr (x # xs)) = (if preset_tuple x then Some (JArr (x # xs)) else None)"
| "accepted (JObj es) =
     (if isArray (get (JObj es) ''preset'') then Some (get (JObj es) ''preset'')
      else if isArray (get (JObj es) ''Preset'') then Some (get (JObj es) ''Preset'')
      else None)"
| "accepted _ = None"

fun first_accepted :: "jsval list \<Rightarrow> jsval option" where
  "first_accepted [] = None"
| "first_accepted (v # vs) =
     (case accepted v of Some raw \<Rightarrow> Some raw | None \<Rightarrow> first_accepted vs)"

definition decoder_scan :: "jsval \<Rightarrow> jsval option" where
  "decoder_scan v =
     (case v of JObj es \<Rightarrow> first_accepted (map (get (JObj es)) (map fst es)) | _ \<Rightarrow> None)"

definition spec_decoders :: "(jsval \<Rightarrow> jsval option) list" where
  "spec_decoders =
     [decoder_PtzPreset_preset, decoder_PtzPreset_array, decoder_preset, decoder_Presets,
      decoder_array, decoder_scan]"

text \<open>Trying decoders in order, the first match wins.\<close>

fun first_match :: "(jsval \<Rightarrow> jsval option) list \<Rightarrow> jsval \<Rightarrow> jsval option" where
  "first_match [] v = None"
| "first_match (d # ds) v = (case d v of Some raw \<Rightarrow> Some raw | None \<Rightarrow> first_match ds v)"

text \<open>
  The raw list by the specification: that of the first decoder that matches, and the
  empty list when none does.
\<close>

definition spec_raw :: "jsval \<Rightarrow> jsval list" where
  "spec_raw v = (case first_match spec_decoders v of Some raw \<Rightarrow> elems raw | None \<Rightarrow> [])"

text \<open>
  Where \<^verbatim>\<open>listPresets\<close> leaves the documented order: its first branch is taken on any
  truthy \<^verbatim>\<open>PtzPreset.preset\<close>, its third and fourth on any truthy \<^verbatim>\<open>preset\<close> and
  \<^verbatim>\<open>Presets\<close>. A value there that no decoder extracts a list from (one that is no array,
  and for \<^verbatim>\<open>preset\<close> and \<^verbatim>\<open>Presets\<close> no object either) ends the search.
\<close>

definition ends_search :: "jsval \<Rightarrow> bool" where
  "ends_search v =
     (let pp = get (get v ''PtzPreset'') ''preset'';
          P = get v ''PtzPreset'';
          p = get v ''preset'';
          Ps = get v ''Presets''
      in (truthy pp \<and> \<not> isArray pp)
         \<or> (\<not> truthy pp \<and> \<not> isArray P \<and> truthy p \<and> \<not> isArray p \<and> \<not> isObject p)
         \<or> (\<not> truthy pp \<and> \<not> isArray P \<and> \<not> truthy p
             \<and> truthy Ps \<and> \<not> isArray Ps \<and> \<not> isObject Ps))"

text \<open>
  A value has a primitive value when \<^verbatim>\<open>String(v)\<close> returns; a raw element converts when
  its id, its name and its channel have one.
\<close>

definition converts :: "jsval \<Rightarrow> bool" where
  "converts v = (case ToString v of Inl e \<Rightarrow> False | Inr s \<Rightarrow> True)"

definition tuple_converts :: "jsval \<Rightarrow> bool" where
  "tuple_converts x =
     (converts (coalesce (get x ''id'') (get x ''ID''))
      \<and> converts (coalesce (get x ''name'') (get x ''Name''))
      \<and> converts (coalesce (get x ''channel'') (get x ''Channel'')))"

text \<open>
  The coercion of a raw element \<open>x\<close> into the record \<open>p\<close>, in the words of the
  specification: the id is the number of \<^verbatim>\<open>id ?? ID\<close>; the name is the string of
  \<^verbatim>\<open>name ?? Name\<close>, and \<^verbatim>\<open>Preset {id}\<close> when both are absent; the record is enabled when
  \<^verbatim>\<open>enable\<close> is absent, and otherwise exactly when it is \<open>1\<close> or \<^verbatim>\<open>true\<close>; the channel is the
  number of \<^verbatim>\<open>channel ?? Channel\<close>, and the requesting channel when both are absent.
\<close>

definition coerced :: "(string \<Rightarrow> number) \<Rightarrow> number \<Rightarrow> jsval \<Rightarrow> PtzPreset \<Rightarrow> bool" where
  "coerced N chan x p =
     (ToNumber N (coalesce (get x ''id'') (get x ''ID'')) = Inr (id' p)
      \<and> (if nullish (get x ''name'') \<and> nullish (get x ''Name'')
          then name p = ''Preset '' @ string_of_number (id' p)
          else ToString (coalesce (get x ''name'') (get x ''Name'')) = Inr (name p))
      \<and> (if nullish (get x ''enable'') then enable p
          else enable p = (get x ''enable'' = JNum (Num 1) \<or> get x ''enable'' = JBool True))
      \<and> (if nullish (get x ''channel'') \<and> nullish (get x ''Channel'')
          then channel p = chan
          else ToNumber N (coalesce (get x ''channel'') (get x ''Channel'')) = Inr (channel p)))"

text \<open>
  The documented envelopes around a list of preset tuples, a tuple on the wire being an
  object with an \<^verbatim>\<open>id\<close> or \<^verbatim>\<open>ID\<close> property (\<open>preset_tuple\<close>). A lone object stands for a list of
  one; the generic scan finds the list under any key, directly or one object down under
  \<^verbatim>\<open>preset\<close> or \<^verbatim>\<open>Preset\<close> (there the keys \<^verbatim>\<open>preset\<close> and \<^verbatim>\<open>Presets\<close> are left out, because
  an object under them is the lone-object shape).
\<close>

datatype shape =
    PtzPreset_preset
  | PtzPreset_array
  | preset_array
  | preset_lone
  | Presets_array
  | Presets_lone
  | bare_array
  | scan_array string
  | scan_nested_preset string
  | scan_nested_Preset string

fun envelope :: "shape \<Rightarrow> jsval list \<Rightarrow> jsval option" where
  "envelope PtzPreset_preset xs = Some (JObj [(''PtzPreset'', JObj [(''preset'', JArr xs)])])"
| "envelope PtzPreset_array xs = Some (JObj [(''PtzPreset'', JArr xs)])"
| "envelope preset_array xs = Some (JObj [(''preset'', JArr xs)])"
| "envelope preset_lone xs = (case xs of [x] \<Rightarrow> Some (JObj [(''preset'', x)]) | _ \<Rightarrow> None)"
| "envelope Presets_array xs = Some (JObj [(''Presets'', JArr xs)])"
| "envelope Presets_lone xs = (case xs of [x] \<Rightarrow> Some (JObj [(''Presets'', x)]) | _ \<Rightarrow> None)"
| "envelope bare_array xs = Some (JArr xs)"
| "envelope (scan_array k) xs = Some (JObj [(k, JArr xs)])"
| "envelope (scan_nested_preset k) xs =
     (if k = ''preset'' \<or> k = ''Presets'' then None
      else Some (JObj [(k, JObj [(''preset'', JArr xs)])]))"
| "envelope (scan_nested_Preset k) xs =
     (if k = ''preset'' \<or> k = ''Presets'' then None
      else Some (JObj [(k, JObj [(''Preset'', JArr xs)])]))"

text \<open>The request that \<^verbatim>\<open>listPresets\<close> sends is answered with \<open>response\<close>.\<close>

definition replies :: "transport \<Rightarrow> PresetsModule \<Rightarrow> number \<Rightarrow> jsval \<Rightarrow> bool" where
  "replies T m chan response =
     (T (trace m) ''GetPtzPreset'' (JObj [(''channel'', JNum chan)]) (Some (Num 1)) = Inr response)"

text \<open>The range of preset ids that the data model of the specification states.\<close>

fun id_in_range :: "number \<Rightarrow> bool" where
  "id_in_range (Num i) = (1 \<le> i \<and> i \<le> 64)"
| "id_in_range NaN = False"

subsection \<open>Sequences of capability queries\<close>

definition is_command :: "string \<Rightarrow> event \<Rightarrow> bool" where
  "is_command command ev = (case ev of Request c payload action \<Rightarrow> c = command | Delay ms \<Rightarrow> False)"

definition count_command :: "string \<Rightarrow> event list \<Rightarrow> nat" where
  "count_command command evs = length (filter (is_command command) evs)"

text \<open>
  What the first tier of \<^verbatim>\<open>getSupportedAiTypes\<close> yields for a channel: the flags of its
  ability record, none if reading the record throws.
\<close>

definition tier1 :: "transport \<Rightarrow> number \<Rightarrow> PresetsModule \<Rightarrow> string list" where
  "tier1 T c m = (case fst (getChannelAbility T c m) of Inl e \<Rightarrow> [] | Inr ability \<Rightarrow> abilityFlags ability)"

text \<open>
  A client calling \<^verbatim>\<open>getSupportedAiTypes\<close> for a list of channels, one call after the
  other on the same module: for each call its channel, its outcome and what it issued.
\<close>

fun calls ::
  "transport \<Rightarrow> number list \<Rightarrow> PresetsModule \<Rightarrow> (number \<times> (error + string list) \<times> event list) list"
where
  "calls T [] m = []"
| "calls T (c # cs) m =
     (case getSupportedAiTypes T c m of
        (r, m') \<Rightarrow> (c, r, issued m m') # calls T cs m')"

text \<open>Everything issued by the calls for one channel.\<close>

definition issued_for ::
  "number \<Rightarrow> (number \<times> (error + string list) \<times> event list) list \<Rightarrow> event list" where
  "issued_for c cl = concat (map (\<lambda>(c', r, evs). evs) (filter (\<lambda>(c', r, evs). c' = c) cl))"

section \<open>Properties\<close>

subsection \<open>Zone codec\<close>

text \<open>
  Claim C3. For a grid area of positive width and height whose bit string has exactly
  \<open>width * height\<close> characters, \<open>buildScope\<close> succeeds with a wire scope that carries the
  width as \<^verbatim>\<open>width\<close> and \<^verbatim>\<open>cols\<close>, the height as \<^verbatim>\<open>height\<close> and \<^verbatim>\<open>rows\<close> and the bits as
  \<^verbatim>\<open>table\<close>, and \<open>normalizeMdScope\<close> of that scope returns the object
  \<^verbatim>\<open>{ width, height, bits }\<close> of the original area.
\<close>

theorem grid_roundtrip:
  assumes "width area = Num w" and "height area = Num h" and "0 < w" and "0 < h"
    and "int (length (bits area)) = w * h"
  shows "\<exists>scope. buildScope area = Inr scope
           \<and> get scope ''width'' = JNum (width area) \<and> get scope ''cols'' = JNum (width area)
           \<and> get scope ''height'' = JNum (height area) \<and> get scope ''rows'' = JNum (height area)
           \<and> get scope ''table'' = JStr (bits area)
           \<and> normalizeMdScope N scope = Inr (GridArea_obj area)"
  using assms by (simp add: buildScope_def normalizeMdScope_def GridArea_obj_def coalesce_def)

theorem grid_roundtrip_witness:
  "width \<lparr>width = Num 4, height = Num 2, bits = ''01101001''\<rparr> = Num 4
   \<and> height \<lparr>width = Num 4, height = Num 2, bits = ''01101001''\<rparr> = Num 2
   \<and> (0::int) < 4 \<and> (0::int) < 2
   \<and> int (length (bits \<lparr>width = Num 4, height = Num 2, bits = ''01101001''\<rparr>)) = 4 * 2
   \<and> (\<exists>scope. buildScope \<lparr>width = Num 4, height = Num 2, bits = ''01101001''\<rparr> = Inr scope
         \<and> normalizeMdScope decimal_literal scope
             = Inr (JObj [(''width'', JNum (Num 4)), (''height'', JNum (Num 2)),
                          (''bits'', JStr ''01101001'')]))"
  using grid_roundtrip [of "\<lparr>width = Num 4, height = Num 2, bits = ''01101001''\<rparr>" 4 2
      decimal_literal]
  by (auto simp: GridArea_obj_def)

subsection \<open>Validation before the transport\<close>

text \<open>
  Claim C8. When the AI type is none of \<^verbatim>\<open>people\<close>, \<^verbatim>\<open>vehicle\<close>, \<^verbatim>\<open>dog_cat\<close>, \<^verbatim>\<open>face\<close>, or the
  length of the bit string differs from \<open>width * height\<close>, \<open>setAiZone\<close> throws an
  \<^verbatim>\<open>Error\<close> and leaves the module as it was: nothing is added to the trace, so no request
  has been issued, and the transport is never consulted.
\<close>

theorem setAiZone_preflight:
  assumes "ai_type \<notin> set SUPPORTED_AI_TYPES
           \<or> Num (int (length (bits area))) \<noteq> num_mult (width area) (height area)"
  shows "(\<exists>msg. fst (setAiZone T chan ai_type area m) = Inl (Error msg))
         \<and> snd (setAiZone T chan ai_type area m) = m"
  using assms by (auto simp: setAiZone_def)

theorem setAiZone_preflight_witness:
  "''thermal'' \<notin> set SUPPORTED_AI_TYPES
   \<and> (\<exists>msg. fst (setAiZone (\<lambda>evs c p a. Inr Null) (Num 0) ''thermal''
            \<lparr>width = Num 1, height = Num 1, bits = ''1''\<rparr>
            \<lparr>trace = [], abilityCache = Map.empty, aiSupportCache = Map.empty\<rparr>)
       = Inl (Error msg))
   \<and> trace (snd (setAiZone (\<lambda>evs c p a. Inr Null) (Num 0) ''thermal''
            \<lparr>width = Num 1, height = Num 1, bits = ''1''\<rparr>
            \<lparr>trace = [], abilityCache = Map.empty, aiSupportCache = Map.empty\<rparr>)) = []"
proof -
  have h: "''thermal'' \<notin> set SUPPORTED_AI_TYPES"
    by (simp add: SUPPORTED_AI_TYPES_def)
  show ?thesis
    using h setAiZone_preflight [of "''thermal''" "\<lparr>width = Num 1, height = Num 1, bits = ''1''\<rparr>"
      "\<lambda>evs c p a. Inr Null" "Num 0"
      "\<lparr>trace = [], abilityCache = Map.empty, aiSupportCache = Map.empty\<rparr>"]
    by simp
qed

subsection \<open>Guard and move\<close>

lemma guardPayload_timeout:
  "get (get (guardPayload chan options t) ''PtzGuard'') ''timeout'' = JNum t"
  by (simp add: guardPayload_def split: option.splits)

text \<open>
  Claim C10. When \<^verbatim>\<open>options.timeoutSec\<close> is absent (or is 60), \<open>setGuard\<close> raises no
  validation error: it issues exactly one \<^verbatim>\<open>SetPtzGuard\<close> request, whose \<^verbatim>\<open>PtzGuard\<close>
  object carries \<^verbatim>\<open>timeout\<close> 60, and its outcome is that of the request. The validation
  rejects, without a request, exactly a supplied \<^verbatim>\<open>timeoutSec\<close> other than 60.
\<close>

theorem setGuard_default_timeout:
  "(timeoutSec options = None \<or> timeoutSec options = Some (Num 60) \<longrightarrow>
      trace (snd (setGuard T chan options m))
        = trace m @ [Request ''SetPtzGuard'' (guardPayload chan options (Num 60)) None]
      \<and> get (get (guardPayload chan options (Num 60)) ''PtzGuard'') ''timeout'' = JNum (Num 60)
      \<and> fst (setGuard T chan options m)
          = (case T (trace m) ''SetPtzGuard'' (guardPayload chan options (Num 60)) None of
               Inl e \<Rightarrow> Inl e | Inr v \<Rightarrow> Inr ()))
   \<and> (\<forall>t. timeoutSec options = Some t \<and> t \<noteq> Num 60 \<longrightarrow>
        setGuard T chan options m
          = (Inl (Error ''Reolink guard timeout currently supports only 60 seconds''), m))"
proof -
  have rejected: "\<forall>t. timeoutSec options = Some t \<and> t \<noteq> Num 60 \<longrightarrow>
        setGuard T chan options m
          = (Inl (Error ''Reolink guard timeout currently supports only 60 seconds''), m)"
    by (simp add: setGuard_def)
  have sent: "timeoutSec options = None \<or> timeoutSec options = Some (Num 60) \<Longrightarrow>
      setGuard T chan options m
        = (case T (trace m) ''SetPtzGuard'' (guardPayload chan options (Num 60)) None of
               Inl e \<Rightarrow> Inl e | Inr v \<Rightarrow> Inr (),
           m\<lparr>trace := trace m @ [Request ''SetPtzGuard'' (guardPayload chan options (Num 60)) None]\<rparr>)"
    unfolding setGuard_def request_def by (auto split: sum.splits)
  show ?thesis
    using rejected sent guardPayload_timeout [of chan options "Num 60"] by auto
qed

theorem setGuard_default_timeout_witness:
  "timeoutSec \<lparr>enable' = Some True, timeoutSec = None, setCurrentAsGuard = None,
                goToGuardNow = Some True\<rparr> = None
   \<and> trace (snd (setGuard (\<lambda>evs c p a. Inr Null) (Num 0)
         \<lparr>enable' = Some True, timeoutSec = None, setCurrentAsGuard = None,
           goToGuardNow = Some True\<rparr>
         \<lparr>trace = [], abilityCache = Map.empty, aiSupportCache = Map.empty\<rparr>))
     = [Request ''SetPtzGuard''
          (JObj [(''PtzGuard'', JObj [(''channel'', JNum (Num 0)), (''benable'', JNum (Num 1)),
             (''timeout'', JNum (Num 60)), (''cmdStr'', JStr ''toPos''),
             (''bSaveCurrentPos'', JNum (Num 0))])]) None]
   \<and> fst (setGuard (\<lambda>evs c p a. Inr Null) (Num 0)
         \<lparr>enable' = Some True, timeoutSec = None, setCurrentAsGuard = None,
           goToGuardNow = Some True\<rparr>
         \<lparr>trace = [], abilityCache = Map.empty, aiSupportCache = Map.empty\<rparr>) = Inr ()
   \<and> fst (setGuard (\<lambda>evs c p a. Inr Null) (Num 0)
         \<lparr>enable' = None, timeoutSec = Some (Num 30), setCurrentAsGuard = None,
           goToGuardNow = None\<rparr>
         \<lparr>trace = [], abilityCache = Map.empty, aiSupportCache = Map.empty\<rparr>)
       = Inl (Error ''Reolink guard timeout currently supports only 60 seconds'')"
proof -
  have p: "guardPayload (Num 0) \<lparr>enable' = Some True, timeoutSec = None, setCurrentAsGuard = None,
           goToGuardNow = Some True\<rparr> (Num 60)
     = JObj [(''PtzGuard'', JObj [(''channel'', JNum (Num 0)), (''benable'', JNum (Num 1)),
             (''timeout'', JNum (Num 60)), (''cmdStr'', JStr ''toPos''),
             (''bSaveCurrentPos'', JNum (Num 0))])]"
    by (simp add: guardPayload_def)
  show ?thesis
  using setGuard_default_timeout [of
      "\<lparr>enable' = Some True, timeoutSec = None, setCurrentAsGuard = None, goToGuardNow = Some True\<rparr>"
      "\<lambda>evs c p a. Inr Null" "Num 0"
      "\<lparr>trace = [], abilityCache = Map.empty, aiSupportCache = Map.empty\<rparr>"]
    setGuard_default_timeout [of
      "\<lparr>enable' = None, timeoutSec = Some (Num 30), setCurrentAsGuard = None, goToGuardNow = None\<rparr>"
      "\<lambda>evs c p a. Inr Null" "Num 0"
      "\<lparr>trace = [], abilityCache = Map.empty, aiSupportCache = Map.empty\<rparr>"]
  by (simp add: p)
qed



subsection \<open>Object literals\<close>

lemma map_of_set_prop: "map_of (set_prop es k v) = (map_of es)(k \<mapsto> v)"
  by (induction es) (auto simp: fun_upd_twist)

lemma map_of_fold_set_prop:
  "map_of (fold (\<lambda>(k, x) acc. set_prop acc k x) es' es) = map_of es ++ map_of (rev es')"
proof (induction es' arbitrary: es)
  case Nil
  show ?case by simp
next
  case (Cons e es')
  obtain k x where e: "e = (k, x)" by (cases e)
  have "map_of (fold (\<lambda>(k, x) acc. set_prop acc k x) (e # es') es)
          = map_of (set_prop es k x) ++ map_of (rev es')"
    using Cons.IH by (simp add: e)
  also have "\<dots> = (map_of es)(k \<mapsto> x) ++ map_of (rev es')"
    by (simp only: map_of_set_prop)
  also have "\<dots> = map_of es ++ map_of (rev (e # es'))"
    by (auto simp: e map_add_def fun_eq_iff split: option.splits)
  finally show ?case .
qed

lemma map_of_rev_distinct: "distinct (map fst es) \<Longrightarrow> map_of (rev es) = map_of es"
proof (induction es)
  case Nil
  show ?case by simp
next
  case (Cons e es)
  obtain k x where e: "e = (k, x)" by (cases e)
  from Cons.prems have fresh: "k \<notin> dom (map_of es)" and d: "distinct (map fst es)"
    by (auto simp: e dom_map_of_conv_image_fst)
  have "map_of (rev (e # es)) = map_of [(k, x)] ++ map_of (rev es)"
    by (simp add: e)
  also have "\<dots> = map_of [(k, x)] ++ map_of es"
    using Cons.IH d by simp
  also have "\<dots> = map_of (e # es)"
    using fresh by (auto simp: e map_add_def fun_eq_iff split: option.splits)
  finally show ?case .
qed

lemma map_of_spread:
  "map_of (spread es (JObj es')) = map_of es ++ map_of (rev es')"
  by (simp add: spread_def map_of_fold_set_prop)

lemma get_set_prop:
  "get (JObj (set_prop es k v)) k' = (if k' = k then v else get (JObj es) k')"
  by (simp add: map_of_set_prop)


subsection \<open>Motion zone: read, merge, write\<close>

lemma buildScope_Inr:
  "buildScope area = Inr scope \<Longrightarrow>
     scope = JObj [(''width'', JNum (width area)), (''height'', JNum (height area)),
                   (''cols'', JNum (width area)), (''rows'', JNum (height area)),
                   (''table'', JStr (bits area))]"
  by (simp add: buildScope_def split: if_splits)

lemma mergeMdAlarm_top:
  "get (mergeMdAlarm chan scope table mdAlarm) ''channel'' = JNum chan
   \<and> get (mergeMdAlarm chan scope table mdAlarm) ''table'' = JStr table"
  by (simp add: mergeMdAlarm_def map_of_set_prop)

lemma mergeMdAlarm_siblings:
  assumes "distinct (map fst es)" and "k \<noteq> ''channel''" and "k \<noteq> ''scope''" and "k \<noteq> ''table''"
  shows "get (mergeMdAlarm chan scope table (JObj es)) k = get (JObj es) k"
  using assms
  by (simp add: mergeMdAlarm_def map_of_set_prop spread_def map_of_fold_set_prop
      map_of_rev_distinct)

lemma mergeMdAlarm_scope:
  "get (mergeMdAlarm chan (JObj sc) table mdAlarm) ''scope''
     = JObj (spread (spread [] (coalesce (get mdAlarm ''scope'') (JObj []))) (JObj sc))"
  by (simp add: mergeMdAlarm_def map_of_set_prop)

lemma mergeMdAlarm_scope_new:
  assumes "distinct (map fst sc)" and "k \<in> set (map fst sc)"
  shows "get (get (mergeMdAlarm chan (JObj sc) table mdAlarm) ''scope'') k = get (JObj sc) k"
proof -
  from assms(2) obtain v where v: "map_of sc k = Some v"
    by (cases "map_of sc k") (auto simp: map_of_eq_None_iff)
  have "map_of (spread (spread [] (coalesce (get mdAlarm ''scope'') (JObj []))) (JObj sc)) k
          = Some v"
    unfolding map_of_spread map_of_rev_distinct [OF assms(1)] using v
    by (rule map_add_find_right)
  then show ?thesis
    using v by (simp add: mergeMdAlarm_scope)
qed

lemma mergeMdAlarm_scope_old:
  assumes "distinct (map fst sc)" and "k \<notin> set (map fst sc)"
    and "get mdAlarm ''scope'' = JObj ses" and "distinct (map fst ses)"
  shows "get (get (mergeMdAlarm chan (JObj sc) table mdAlarm) ''scope'') k = get (JObj ses) k"
proof -
  from assms(2) have none: "map_of sc k = None"
    by (simp add: map_of_eq_None_iff)
  have "map_of (spread (spread [] (coalesce (get mdAlarm ''scope'') (JObj []))) (JObj sc)) k
          = map_of (spread [] (JObj ses)) k"
    unfolding map_of_spread [of _ sc] map_of_rev_distinct [OF assms(1)]
    using none by (simp add: map_add_def assms(3) coalesce_def)
  also have "\<dots> = map_of ses k"
    by (simp add: map_of_spread map_of_rev_distinct [OF assms(4)])
  finally show ?thesis
    by (simp add: mergeMdAlarm_scope)
qed


lemma setMdZone_device_error:
  assumes "buildScope area = Inr scope"
    and "T (trace m) ''GetMdAlarm'' (JObj [(''channel'', JNum chan)]) None
           = Inl (ReolinkHttpError code msg)"
  shows "setMdZone T chan area m
           = (Inl (ReolinkHttpError code msg),
              m\<lparr>trace := trace m @ [Request ''GetMdAlarm'' (JObj [(''channel'', JNum chan)]) None]\<rparr>)"
  using assms by (simp add: setMdZone_def request_def)

lemma writeMdAlarm_eq:
  "writeMdAlarm T payload m
     = (case T (trace m) ''SetMdAlarm'' (JObj [(''MdAlarm'', payload)]) None of
          Inl e \<Rightarrow> Inl e | Inr v \<Rightarrow> Inr (),
        m\<lparr>trace := trace m @ [Request ''SetMdAlarm'' (JObj [(''MdAlarm'', payload)]) None]\<rparr>)"
  by (simp add: writeMdAlarm_def request_def split: sum.splits)

lemma setMdZone_other_error:
  assumes "buildScope area = Inr scope"
    and "T (trace m) ''GetMdAlarm'' (JObj [(''channel'', JNum chan)]) None = Inl (Error msg)"
  shows "setMdZone T chan area m
           = writeMdAlarm T (minimalMdAlarm chan scope (bits area))
               (m\<lparr>trace := trace m @ [Request ''GetMdAlarm'' (JObj [(''channel'', JNum chan)]) None]\<rparr>)"
  using assms by (simp add: setMdZone_def request_def)

lemma setMdZone_merged:
  assumes "buildScope area = Inr scope"
    and "T (trace m) ''GetMdAlarm'' (JObj [(''channel'', JNum chan)]) None = Inr current"
    and "coalesce (get current ''MdAlarm'') current = JObj es"
  shows "setMdZone T chan area m
           = writeMdAlarm T (mergeMdAlarm chan scope (bits area) (JObj es))
               (m\<lparr>trace := trace m @ [Request ''GetMdAlarm'' (JObj [(''channel'', JNum chan)]) None]\<rparr>)"
  using assms by (simp add: setMdZone_def request_def)

text \<open>
  Claim C4. For a valid area (one \<open>buildScope\<close> accepts), \<open>setMdZone\<close> first reads the
  current configuration with \<^verbatim>\<open>GetMdAlarm\<close>. If that read throws a \<^verbatim>\<open>ReolinkHttpError\<close>, the
  call throws the same error and the read is all it has issued. If the read throws any
  other error, the call goes on to write the minimal payload (channel, the new scope, the
  new table) and ends as that write ends. If the read returns a configuration object, the
  call writes that object with \<^verbatim>\<open>channel\<close>, \<^verbatim>\<open>table\<close> and the fields of the new scope set:
  every other field of the configuration, and every other field of its \<^verbatim>\<open>scope\<close> object,
  is kept.
\<close>

theorem setMdZone_merge_read:
  assumes valid: "buildScope area = Inr scope"
  shows
    "(\<forall>code msg.
        T (trace m) ''GetMdAlarm'' (JObj [(''channel'', JNum chan)]) None
          = Inl (ReolinkHttpError code msg) \<longrightarrow>
        fst (setMdZone T chan area m) = Inl (ReolinkHttpError code msg)
        \<and> trace (snd (setMdZone T chan area m))
            = trace m @ [Request ''GetMdAlarm'' (JObj [(''channel'', JNum chan)]) None])
     \<and> (\<forall>msg.
        T (trace m) ''GetMdAlarm'' (JObj [(''channel'', JNum chan)]) None = Inl (Error msg) \<longrightarrow>
        trace (snd (setMdZone T chan area m))
          = trace m @ [Request ''GetMdAlarm'' (JObj [(''channel'', JNum chan)]) None,
                       Request ''SetMdAlarm''
                         (JObj [(''MdAlarm'', JObj [(''channel'', JNum chan), (''scope'', scope),
                                                    (''table'', JStr (bits area))])]) None]
        \<and> fst (setMdZone T chan area m)
            = (case T (trace m @ [Request ''GetMdAlarm'' (JObj [(''channel'', JNum chan)]) None])
                      ''SetMdAlarm''
                      (JObj [(''MdAlarm'', JObj [(''channel'', JNum chan), (''scope'', scope),
                                                 (''table'', JStr (bits area))])]) None of
                 Inl e \<Rightarrow> Inl e | Inr v \<Rightarrow> Inr ()))
     \<and> (\<forall>current es.
        T (trace m) ''GetMdAlarm'' (JObj [(''channel'', JNum chan)]) None = Inr current
        \<and> coalesce (get current ''MdAlarm'') current = JObj es \<and> distinct (map fst es) \<longrightarrow>
        trace (snd (setMdZone T chan area m))
          = trace m @ [Request ''GetMdAlarm'' (JObj [(''channel'', JNum chan)]) None,
                       Request ''SetMdAlarm''
                         (JObj [(''MdAlarm'', mergeMdAlarm chan scope (bits area) (JObj es))]) None]
        \<and> get (mergeMdAlarm chan scope (bits area) (JObj es)) ''channel'' = JNum chan
        \<and> get (mergeMdAlarm chan scope (bits area) (JObj es)) ''table'' = JStr (bits area)
        \<and> (\<forall>k \<in> set (keys scope).
              get (get (mergeMdAlarm chan scope (bits area) (JObj es)) ''scope'') k = get scope k)
        \<and> (\<forall>k. k \<notin> {''channel'', ''scope'', ''table''} \<longrightarrow>
              get (mergeMdAlarm chan scope (bits area) (JObj es)) k = get (JObj es) k)
        \<and> (\<forall>ses k. get (JObj es) ''scope'' = JObj ses \<and> distinct (map fst ses)
                \<and> k \<notin> set (keys scope) \<longrightarrow>
              get (get (mergeMdAlarm chan scope (bits area) (JObj es)) ''scope'') k
                = get (JObj ses) k))"
proof (intro conjI allI impI ballI)
  fix code msg
  assume "T (trace m) ''GetMdAlarm'' (JObj [(''channel'', JNum chan)]) None
            = Inl (ReolinkHttpError code msg)"
  from setMdZone_device_error [where T = T and m = m, OF valid this]
  show "fst (setMdZone T chan area m) = Inl (ReolinkHttpError code msg)"
    and "trace (snd (setMdZone T chan area m))
            = trace m @ [Request ''GetMdAlarm'' (JObj [(''channel'', JNum chan)]) None]"
    by simp_all
next
  fix msg
  assume "T (trace m) ''GetMdAlarm'' (JObj [(''channel'', JNum chan)]) None = Inl (Error msg)"
  from setMdZone_other_error [where T = T and m = m, OF valid this]
  show "trace (snd (setMdZone T chan area m))
          = trace m @ [Request ''GetMdAlarm'' (JObj [(''channel'', JNum chan)]) None,
                       Request ''SetMdAlarm''
                         (JObj [(''MdAlarm'', JObj [(''channel'', JNum chan), (''scope'', scope),
                                                    (''table'', JStr (bits area))])]) None]"
    and "fst (setMdZone T chan area m)
            = (case T (trace m @ [Request ''GetMdAlarm'' (JObj [(''channel'', JNum chan)]) None])
                      ''SetMdAlarm''
                      (JObj [(''MdAlarm'', JObj [(''channel'', JNum chan), (''scope'', scope),
                                                 (''table'', JStr (bits area))])]) None of
                 Inl e \<Rightarrow> Inl e | Inr v \<Rightarrow> Inr ())"
    by (simp_all add: writeMdAlarm_eq minimalMdAlarm_def)
next
  fix current es
  assume h: "T (trace m) ''GetMdAlarm'' (JObj [(''channel'', JNum chan)]) None = Inr current
        \<and> coalesce (get current ''MdAlarm'') current = JObj es \<and> distinct (map fst es)"
  from h setMdZone_merged [where T = T and m = m and current = current and es = es, OF valid]
  show "trace (snd (setMdZone T chan area m))
          = trace m @ [Request ''GetMdAlarm'' (JObj [(''channel'', JNum chan)]) None,
                       Request ''SetMdAlarm''
                         (JObj [(''MdAlarm'', mergeMdAlarm chan scope (bits area) (JObj es))]) None]"
    by (simp add: writeMdAlarm_eq)
  show "get (mergeMdAlarm chan scope (bits area) (JObj es)) ''channel'' = JNum chan"
    and "get (mergeMdAlarm chan scope (bits area) (JObj es)) ''table'' = JStr (bits area)"
    using mergeMdAlarm_top by blast+
  {
    fix k
    assume "k \<notin> {''channel'', ''scope'', ''table''}"
    with h show "get (mergeMdAlarm chan scope (bits area) (JObj es)) k = get (JObj es) k"
      using mergeMdAlarm_siblings [of es k] by blast
  }
  note sc = buildScope_Inr [OF valid]
  have dsc: "distinct (map fst [(''width'', JNum (width area)), (''height'', JNum (height area)),
                   (''cols'', JNum (width area)), (''rows'', JNum (height area)),
                   (''table'', JStr (bits area))])"
    by simp
  {
    fix k
    assume "k \<in> set (keys scope)"
    then show "get (get (mergeMdAlarm chan scope (bits area) (JObj es)) ''scope'') k = get scope k"
      unfolding sc using mergeMdAlarm_scope_new [OF dsc] by simp
  }
  {
    fix ses k
    assume "get (JObj es) ''scope'' = JObj ses \<and> distinct (map fst ses) \<and> k \<notin> set (keys scope)"
    then show "get (get (mergeMdAlarm chan scope (bits area) (JObj es)) ''scope'') k
                = get (JObj ses) k"
      unfolding sc using mergeMdAlarm_scope_old [OF dsc, of k "JObj es" ses] by simp
  }
qed


theorem setMdZone_merge_read_witness:
  "buildScope \<lparr>width = Num 2, height = Num 1, bits = ''01''\<rparr>
     = Inr (JObj [(''width'', JNum (Num 2)), (''height'', JNum (Num 1)),
                  (''cols'', JNum (Num 2)), (''rows'', JNum (Num 1)), (''table'', JStr ''01'')])
   \<and> fst (setMdZone (\<lambda>evs c p a. Inl (ReolinkHttpError (Num 1) ''rejected'')) (Num 0)
            \<lparr>width = Num 2, height = Num 1, bits = ''01''\<rparr>
            \<lparr>trace = [], abilityCache = Map.empty, aiSupportCache = Map.empty\<rparr>)
       = Inl (ReolinkHttpError (Num 1) ''rejected'')
   \<and> trace (snd (setMdZone (\<lambda>evs c p a. Inl (ReolinkHttpError (Num 1) ''rejected'')) (Num 0)
            \<lparr>width = Num 2, height = Num 1, bits = ''01''\<rparr>
            \<lparr>trace = [], abilityCache = Map.empty, aiSupportCache = Map.empty\<rparr>))
       = [Request ''GetMdAlarm'' (JObj [(''channel'', JNum (Num 0))]) None]
   \<and> trace (snd (setMdZone (\<lambda>evs c p a. if c = ''GetMdAlarm'' then Inl (Error ''offline'')
                                           else Inr Null) (Num 0)
            \<lparr>width = Num 2, height = Num 1, bits = ''01''\<rparr>
            \<lparr>trace = [], abilityCache = Map.empty, aiSupportCache = Map.empty\<rparr>))
       = [Request ''GetMdAlarm'' (JObj [(''channel'', JNum (Num 0))]) None,
          Request ''SetMdAlarm''
            (JObj [(''MdAlarm'', JObj [(''channel'', JNum (Num 0)),
               (''scope'', JObj [(''width'', JNum (Num 2)), (''height'', JNum (Num 1)),
                  (''cols'', JNum (Num 2)), (''rows'', JNum (Num 1)), (''table'', JStr ''01'')]),
               (''table'', JStr ''01'')])]) None]
   \<and> fst (setMdZone (\<lambda>evs c p a. if c = ''GetMdAlarm'' then Inl (Error ''offline'')
                                           else Inr Null) (Num 0)
            \<lparr>width = Num 2, height = Num 1, bits = ''01''\<rparr>
            \<lparr>trace = [], abilityCache = Map.empty, aiSupportCache = Map.empty\<rparr>) = Inr ()
   \<and> get (mergeMdAlarm (Num 0)
             (JObj [(''width'', JNum (Num 2)), (''height'', JNum (Num 1)),
                  (''cols'', JNum (Num 2)), (''rows'', JNum (Num 1)), (''table'', JStr ''01'')])
             ''01'' (JObj [(''sens'', JNum (Num 3)), (''scope'', JObj [(''x'', JBool True)])]))
         ''sens'' = JNum (Num 3)
   \<and> get (get (mergeMdAlarm (Num 0)
             (JObj [(''width'', JNum (Num 2)), (''height'', JNum (Num 1)),
                  (''cols'', JNum (Num 2)), (''rows'', JNum (Num 1)), (''table'', JStr ''01'')])
             ''01'' (JObj [(''sens'', JNum (Num 3)), (''scope'', JObj [(''x'', JBool True)])]))
         ''scope'') ''x'' = JBool True
   \<and> get (get (mergeMdAlarm (Num 0)
             (JObj [(''width'', JNum (Num 2)), (''height'', JNum (Num 1)),
                  (''cols'', JNum (Num 2)), (''rows'', JNum (Num 1)), (''table'', JStr ''01'')])
             ''01'' (JObj [(''sens'', JNum (Num 3)), (''scope'', JObj [(''x'', JBool True)])]))
         ''scope'') ''cols'' = JNum (Num 2)"
proof -
  let ?area = "\<lparr>width = Num 2, height = Num 1, bits = ''01''\<rparr>"
  let ?scope = "JObj [(''width'', JNum (Num 2)), (''height'', JNum (Num 1)),
                  (''cols'', JNum (Num 2)), (''rows'', JNum (Num 1)), (''table'', JStr ''01'')]"
  let ?m = "\<lparr>trace = [], abilityCache = Map.empty, aiSupportCache = Map.empty\<rparr>"
  let ?cfg = "[(''sens'', JNum (Num 3)), (''scope'', JObj [(''x'', JBool True)])]"
  have valid: "buildScope ?area = Inr ?scope"
    by (simp add: buildScope_def)
  have d: "distinct (map fst ?cfg)" "coalesce (get (JObj [(''MdAlarm'', JObj ?cfg)]) ''MdAlarm'')
             (JObj [(''MdAlarm'', JObj ?cfg)]) = JObj ?cfg"
    by (simp_all add: coalesce_def)
  show ?thesis
    using valid d
      setMdZone_merge_read [OF valid,
        of "\<lambda>evs c p a. Inl (ReolinkHttpError (Num 1) ''rejected'')" ?m "Num 0"]
      setMdZone_merge_read [OF valid,
        of "\<lambda>evs c p a. if c = ''GetMdAlarm'' then Inl (Error ''offline'') else Inr Null" ?m "Num 0"]
      setMdZone_merge_read [OF valid,
        of "\<lambda>evs c p a. Inr (JObj [(''MdAlarm'', JObj ?cfg)])" ?m "Num 0"]
    by simp
qed

subsection \<open>Listing presets\<close>

subsubsection \<open>Conversions\<close>

lemma collect_Inr_iff:
  "(collect (map f xs) = Inr ys) = list_all2 (\<lambda>x y. f x = Inr y) xs ys"
proof (induction xs arbitrary: ys)
  case Nil
  show ?case by auto
next
  case (Cons x xs)
  show ?case
    by (cases "f x"; cases "collect (map f xs)") (auto simp: list_all2_Cons1 Cons.IH [symmetric])
qed

lemma collect_Inl: "collect (map f xs) = Inl e \<Longrightarrow> \<exists>x \<in> set xs. f x = Inl e"
proof (induction xs)
  case Nil
  then show ?case by simp
next
  case (Cons x xs)
  then show ?case
    by (cases "f x"; cases "collect (map f xs)") auto
qed

lemma collect_Inr_ex:
  "(\<exists>ys. collect (map f xs) = Inr ys) = (\<forall>x \<in> set xs. \<exists>y. f x = Inr y)"
proof (induction xs)
  case Nil
  show ?case by simp
next
  case (Cons x xs)
  show ?case
    using Cons.IH by (cases "f x"; cases "collect (map f xs)") auto
qed

lemma ToString_error: "ToString v = Inl e \<Longrightarrow> e = TypeError"
proof (induction v rule: ToString.induct)
  case (6 xs)
  from "6.prems" have "collect (map (\<lambda>x. if nullish x then Inr [] else ToString x) xs) = Inl e"
    by (simp split: sum.splits)
  then obtain x where "x \<in> set xs" and "(if nullish x then Inr [] else ToString x) = Inl e"
    by (auto dest: collect_Inl)
  then show ?case
    using "6.IH" [of x] by (auto split: if_splits)
qed (auto split: if_splits)

lemma ToNumber_error: "(ToNumber N v = Inl e) = (ToString v = Inl e)"
  by (cases v) (simp_all split: sum.splits del: ToString.simps, simp_all)

lemma converts_ToString: "converts v = (\<exists>s. ToString v = Inr s)"
  by (simp add: converts_def split: sum.splits)

lemma converts_ToNumber: "converts v = (\<exists>n. ToNumber N v = Inr n)"
proof -
  have "(\<exists>n. ToNumber N v = Inr n) = (\<forall>e. ToNumber N v \<noteq> Inl e)"
    by (cases "ToNumber N v") auto
  also have "\<dots> = (\<forall>e. ToString v \<noteq> Inl e)"
    by (simp add: ToNumber_error)
  also have "\<dots> = converts v"
    by (cases "ToString v") (auto simp: converts_def)
  finally show ?thesis ..
qed

lemma converts_nullish: "nullish v \<Longrightarrow> converts v"
  by (cases v) (simp_all add: converts_def)


subsubsection \<open>Coercion of a raw element\<close>

lemma toPtzPreset_coerced:
  assumes "has_id x"
  shows "(toPtzPreset N chan x = Inr p) = coerced N chan x p"
proof -
  from assms have idc:
    "coalesce (coalesce (get x ''id'') (get x ''ID'')) (JNum (Num 0))
       = coalesce (get x ''id'') (get x ''ID'')"
    by (auto simp: has_id_def coalesce_def)
  have nm: "coalesce (coalesce (get x ''name'') (get x ''Name'')) d
       = (if nullish (get x ''name'') \<and> nullish (get x ''Name'') then d
          else coalesce (get x ''name'') (get x ''Name''))" for d
    by (auto simp: coalesce_def)
  have ch: "coalesce (coalesce (get x ''channel'') (get x ''Channel'')) d
       = (if nullish (get x ''channel'') \<and> nullish (get x ''Channel'') then d
          else coalesce (get x ''channel'') (get x ''Channel''))" for d
    by (auto simp: coalesce_def)
  obtain i n e c where p: "p = \<lparr>id' = i, name = n, enable = e, channel = c\<rparr>"
    by (cases p) auto
  show ?thesis
    unfolding toPtzPreset_def coerced_def idc nm ch p
    by (cases "ToNumber N (coalesce (get x ''id'') (get x ''ID''))";
        cases "ToString (coalesce (get x ''name'') (get x ''Name''))";
        cases "ToNumber N (coalesce (get x ''channel'') (get x ''Channel''))")
       (auto simp: strict_eq_num_def Let_def)
qed

lemma toPtzPreset_converts: "(\<exists>p. toPtzPreset N chan x = Inr p) = tuple_converts x"
proof -
  have dflt: "(\<exists>n. ToNumber N (coalesce a (JNum d)) = Inr n) = converts a" for a d
    using converts_ToNumber [of a N] converts_nullish [of a] by (auto simp: coalesce_def)
  have dflt': "(\<exists>n. ToString (coalesce a (JStr d)) = Inr n) = converts a" for a d
    using converts_ToString [of a] converts_nullish [of a] by (auto simp: coalesce_def)
  show ?thesis
  proof
    assume "\<exists>p. toPtzPreset N chan x = Inr p"
    then obtain i n c where
      "ToNumber N (coalesce (coalesce (get x ''id'') (get x ''ID'')) (JNum (Num 0))) = Inr i"
      "ToString (coalesce (coalesce (get x ''name'') (get x ''Name''))
            (JStr (''Preset '' @ string_of_number i))) = Inr n"
      "ToNumber N (coalesce (coalesce (get x ''channel'') (get x ''Channel'')) (JNum chan)) = Inr c"
      by (auto simp: toPtzPreset_def Let_def split: sum.splits)
    then have "converts (coalesce (get x ''id'') (get x ''ID''))"
      and "converts (coalesce (get x ''name'') (get x ''Name''))"
      and "converts (coalesce (get x ''channel'') (get x ''Channel''))"
      using dflt dflt' by blast+
    then show "tuple_converts x"
      by (simp add: tuple_converts_def)
  next
    assume "tuple_converts x"
    then have ic: "converts (coalesce (get x ''id'') (get x ''ID''))"
      and nc: "converts (coalesce (get x ''name'') (get x ''Name''))"
      and cc: "converts (coalesce (get x ''channel'') (get x ''Channel''))"
      by (simp_all add: tuple_converts_def)
    from ic obtain i where i: "ToNumber N (coalesce (coalesce (get x ''id'') (get x ''ID''))
          (JNum (Num 0))) = Inr i"
      using dflt by blast
    from cc obtain c where c: "ToNumber N (coalesce (coalesce (get x ''channel'')
          (get x ''Channel'')) (JNum chan)) = Inr c"
      using dflt by blast
    from nc obtain n where
      n: "ToString (coalesce (coalesce (get x ''name'') (get x ''Name''))
            (JStr (''Preset '' @ string_of_number i))) = Inr n"
      using dflt' by blast
    show "\<exists>p. toPtzPreset N chan x = Inr p"
      using i n c by (simp add: toPtzPreset_def Let_def)
  qed
qed

lemma toPtzPreset_error: "toPtzPreset N chan x = Inl e \<Longrightarrow> e = TypeError"
  by (auto simp: toPtzPreset_def Let_def ToNumber_error split: sum.splits dest: ToString_error)


subsubsection \<open>Decoders\<close>

lemma looks_like_preset_tuple: "looks_like_preset v = preset_tuple v"
  by (cases v) (simp_all add: looks_like_preset_def)

lemma isArray_truthy: "isArray v \<Longrightarrow> truthy v"
  by (cases v) simp_all

lemma isObject_truthy: "isObject v \<Longrightarrow> truthy v \<and> \<not> isArray v"
  by (cases v) simp_all

lemma get_not_object: "\<not> isObject v \<Longrightarrow> get v k = Undefined"
  by (cases v) simp_all

lemma scan_keys_first_accepted:
  "scan_keys v ks
     = (case first_accepted (map (get v) ks) of Some raw \<Rightarrow> raw | None \<Rightarrow> Null)"
proof (induction ks)
  case Nil
  show ?case by simp
next
  case (Cons k ks)
  show ?case
  proof (cases "get v k")
    case (JArr xs)
    then show ?thesis
      using Cons.IH by (cases xs) (simp_all add: looks_like_preset_tuple)
  next
    case (JObj es)
    have arr: "(truthy x \<and> isArray x) = isArray x" for x
      by (cases x) simp_all
    show ?thesis
      using Cons.IH by (simp add: JObj Let_def arr del: get.simps)
  qed (simp_all add: Cons.IH)
qed

lemma rawPresets_first_match:
  assumes "\<not> ends_search v"
  shows "rawPresets v = (case first_match spec_decoders v of Some raw \<Rightarrow> raw | None \<Rightarrow> Null)"
proof (cases v)
  case (JObj es)
  have scan: "scan_keys v (keys v) = (case decoder_scan v of Some raw \<Rightarrow> raw | None \<Rightarrow> Null)"
    by (simp add: JObj scan_keys_first_accepted decoder_scan_def del: get.simps)
  have v: "truthy v" "typeof_object v" "\<not> isArray v"
    by (simp_all add: JObj)
  let ?pp = "get (get v ''PtzPreset'') ''preset''"
  let ?P = "get v ''PtzPreset''"
  let ?p = "get v ''preset''"
  let ?Ps = "get v ''Presets''"
  from assms have steps:
    "truthy ?pp \<longrightarrow> isArray ?pp"
    "\<not> truthy ?pp \<and> \<not> isArray ?P \<and> truthy ?p \<longrightarrow> isArray ?p \<or> isObject ?p"
    "\<not> truthy ?pp \<and> \<not> isArray ?P \<and> \<not> truthy ?p \<and> truthy ?Ps \<longrightarrow> isArray ?Ps \<or> isObject ?Ps"
    by (auto simp: ends_search_def Let_def)
  show ?thesis
  proof (cases "truthy ?pp")
    case True
    with steps show ?thesis
      by (simp add: rawPresets_def spec_decoders_def decoder_PtzPreset_preset_def)
  next
    case pp: False
    then have npp: "\<not> isArray ?pp"
      using isArray_truthy by blast
    show ?thesis
    proof (cases "isArray ?P")
      case True
      with pp npp show ?thesis
        by (simp add: rawPresets_def spec_decoders_def decoder_PtzPreset_preset_def
            decoder_PtzPreset_array_def)
    next
      case P: False
      show ?thesis
      proof (cases "truthy ?p")
        case True
        with steps pp P have "isArray ?p \<or> isObject ?p"
          by blast
        with True pp npp P show ?thesis
          using isObject_truthy [of ?p]
          by (auto simp: rawPresets_def spec_decoders_def decoder_PtzPreset_preset_def
              decoder_PtzPreset_array_def decoder_preset_def array_or_lone_def)
      next
        case p: False
        then have np: "\<not> isArray ?p" "\<not> isObject ?p"
          using isArray_truthy isObject_truthy by blast+
        show ?thesis
        proof (cases "truthy ?Ps")
          case True
          with steps pp P p have "isArray ?Ps \<or> isObject ?Ps"
            by blast
          with True pp npp P p np show ?thesis
            using isObject_truthy [of ?Ps]
            by (auto simp: rawPresets_def spec_decoders_def decoder_PtzPreset_preset_def
                decoder_PtzPreset_array_def decoder_preset_def decoder_Presets_def
                array_or_lone_def)
        next
          case Ps: False
          then have nPs: "\<not> isArray ?Ps" "\<not> isObject ?Ps"
            using isArray_truthy isObject_truthy by blast+
          from pp npp P p np Ps nPs v scan show ?thesis
            by (simp add: rawPresets_def spec_decoders_def decoder_PtzPreset_preset_def
                decoder_PtzPreset_array_def decoder_preset_def decoder_Presets_def
                decoder_array_def array_or_lone_def split: option.splits)
        qed
      qed
    qed
  qed
qed (simp_all add: rawPresets_def spec_decoders_def decoder_PtzPreset_preset_def
      decoder_PtzPreset_array_def decoder_preset_def decoder_Presets_def decoder_array_def
      decoder_scan_def array_or_lone_def)

lemma ends_search_empty:
  assumes "ends_search v"
  shows "decodePresets N chan v = Inr []"
proof -
  let ?pp = "get (get v ''PtzPreset'') ''preset''"
  let ?P = "get v ''PtzPreset''"
  let ?p = "get v ''preset''"
  let ?Ps = "get v ''Presets''"
  have prim: "\<not> isObject x \<Longrightarrow> \<not> has_id x" for x
    by (simp add: has_id_def get_not_object)
  from assms consider
      (a) "truthy ?pp" "\<not> isArray ?pp"
    | (b) "\<not> truthy ?pp" "\<not> isArray ?P" "truthy ?p" "\<not> isArray ?p" "\<not> isObject ?p"
    | (c) "\<not> truthy ?pp" "\<not> isArray ?P" "\<not> truthy ?p" "truthy ?Ps" "\<not> isArray ?Ps"
          "\<not> isObject ?Ps"
    by (auto simp: ends_search_def Let_def)
  then show ?thesis
  proof cases
    case a
    then show ?thesis
      by (simp add: decodePresets_def rawPresets_def)
  next
    case b
    then show ?thesis
      by (simp add: decodePresets_def rawPresets_def prim)
  next
    case c
    then show ?thesis
      by (simp add: decodePresets_def rawPresets_def prim)
  qed
qed



subsubsection \<open>Envelopes\<close>

lemma preset_tuple_props:
  "preset_tuple x \<Longrightarrow> looks_like_preset x \<and> truthy x \<and> \<not> isArray x \<and> typeof_object x"
  by (cases x) (auto simp: looks_like_preset_def)

lemma listPresets_replies:
  "replies T m chan r \<Longrightarrow> fst (listPresets N T chan m) = decodePresets N chan r"
  by (simp add: replies_def listPresets_def request_def)

lemma decode_of_raw:
  "truthy r \<Longrightarrow> rawPresets r = JArr xs \<Longrightarrow>
     decodePresets N chan r = collect (map (toPtzPreset N chan) (filter has_id xs))"
  by (simp add: decodePresets_def)

lemma raw_PtzPreset_preset:
  "rawPresets (JObj [(''PtzPreset'', JObj [(''preset'', JArr xs)])]) = JArr xs"
  by (simp add: rawPresets_def)

lemma raw_PtzPreset_array: "rawPresets (JObj [(''PtzPreset'', JArr xs)]) = JArr xs"
  by (simp add: rawPresets_def)

lemma raw_preset_array: "rawPresets (JObj [(''preset'', JArr xs)]) = JArr xs"
  by (simp add: rawPresets_def)

lemma raw_preset_lone:
  "preset_tuple x \<Longrightarrow> rawPresets (JObj [(''preset'', x)]) = JArr [x]"
  using preset_tuple_props [of x] by (simp add: rawPresets_def)

lemma raw_Presets_array: "rawPresets (JObj [(''Presets'', JArr xs)]) = JArr xs"
  by (simp add: rawPresets_def)

lemma raw_Presets_lone:
  "preset_tuple x \<Longrightarrow> rawPresets (JObj [(''Presets'', x)]) = JArr [x]"
  using preset_tuple_props [of x] by (simp add: rawPresets_def)

lemma raw_bare_array: "rawPresets (JArr xs) = JArr xs"
  by (simp add: rawPresets_def)

lemma raw_scan_array:
  assumes "xs \<noteq> []" and "preset_tuple (hd xs)"
  shows "rawPresets (JObj [(k, JArr xs)]) = JArr xs"
  using assms preset_tuple_props [of "hd xs"] by (simp add: rawPresets_def)

lemma raw_scan_nested_preset:
  assumes "k \<noteq> ''preset''" and "k \<noteq> ''Presets''"
  shows "rawPresets (JObj [(k, JObj [(''preset'', JArr xs)])]) = JArr xs"
  using assms by (simp add: rawPresets_def)

lemma raw_scan_nested_Preset:
  assumes "k \<noteq> ''preset''" and "k \<noteq> ''Presets''"
  shows "rawPresets (JObj [(k, JObj [(''Preset'', JArr xs)])]) = JArr xs"
  using assms by (simp add: rawPresets_def)

lemma decode_scan_empty: "decodePresets N chan (JObj [(k, JArr [])]) = Inr []"
  by (simp add: decodePresets_def rawPresets_def)

lemma decode_envelope:
  assumes tuples: "\<forall>x \<in> set xs. preset_tuple x" and env: "envelope sh xs = Some r"
  shows "decodePresets N chan r = collect (map (toPtzPreset N chan) (filter has_id xs))"
proof (cases sh)
  case PtzPreset_preset
  with env show ?thesis by (auto simp: decode_of_raw raw_PtzPreset_preset)
next
  case PtzPreset_array
  with env show ?thesis by (auto simp: decode_of_raw raw_PtzPreset_array)
next
  case preset_array
  with env show ?thesis by (auto simp: decode_of_raw raw_preset_array)
next
  case preset_lone
  with env obtain x where "xs = [x]" and "r = JObj [(''preset'', x)]"
    by (auto split: list.splits)
  with tuples show ?thesis by (simp add: decode_of_raw raw_preset_lone)
next
  case Presets_array
  with env show ?thesis by (auto simp: decode_of_raw raw_Presets_array)
next
  case Presets_lone
  with env obtain x where "xs = [x]" and "r = JObj [(''Presets'', x)]"
    by (auto split: list.splits)
  with tuples show ?thesis by (simp add: decode_of_raw raw_Presets_lone)
next
  case bare_array
  with env show ?thesis by (auto simp: decode_of_raw raw_bare_array)
next
  case (scan_array k)
  with env have r: "r = JObj [(k, JArr xs)]" by simp
  show ?thesis
  proof (cases "xs = []")
    case True
    then show ?thesis by (simp add: r decode_scan_empty)
  next
    case False
    with tuples have "preset_tuple (hd xs)" by simp
    with False show ?thesis by (simp add: r decode_of_raw raw_scan_array)
  qed
next
  case (scan_nested_preset k)
  with env have "k \<noteq> ''preset''" "k \<noteq> ''Presets''" "r = JObj [(k, JObj [(''preset'', JArr xs)])]"
    by (auto split: if_splits)
  then show ?thesis by (simp add: decode_of_raw raw_scan_nested_preset)
next
  case (scan_nested_Preset k)
  with env have "k \<noteq> ''preset''" "k \<noteq> ''Presets''" "r = JObj [(k, JObj [(''Preset'', JArr xs)])]"
    by (auto split: if_splits)
  then show ?thesis by (simp add: decode_of_raw raw_scan_nested_Preset)
qed

lemma coerce_all_Inr:
  "(collect (map (toPtzPreset N chan) (filter has_id xs)) = Inr ps)
     = list_all2 (coerced N chan) (filter has_id xs) ps"
proof -
  have "list_all2 (\<lambda>x p. toPtzPreset N chan x = Inr p) (filter has_id xs) ps
          = list_all2 (coerced N chan) (filter has_id xs) ps"
    by (rule list.rel_cong [OF refl refl]) (simp add: toPtzPreset_coerced)
  then show ?thesis
    by (simp add: collect_Inr_iff)
qed

lemma coerce_all_returns:
  "(\<exists>ps. collect (map (toPtzPreset N chan) (filter has_id xs)) = Inr ps)
     = (\<forall>x \<in> set xs. has_id x \<longrightarrow> tuple_converts x)"
  by (auto simp: collect_Inr_ex toPtzPreset_converts)

lemma coerce_all_error:
  "collect (map (toPtzPreset N chan) (filter has_id xs)) = Inl e \<Longrightarrow>
     e = TypeError \<and> (\<exists>x \<in> set xs. has_id x \<and> \<not> tuple_converts x)"
proof -
  assume "collect (map (toPtzPreset N chan) (filter has_id xs)) = Inl e"
  from collect_Inl [OF this] obtain x where
    x: "x \<in> set xs" "has_id x" "toPtzPreset N chan x = Inl e"
    by auto
  then have "\<not> tuple_converts x"
    using toPtzPreset_converts [of N chan x] by auto
  with x show ?thesis
    by (auto dest: toPtzPreset_error)
qed

lemma decodePresets_coerce:
  "decodePresets N chan r = Inr [] \<or>
   decodePresets N chan r = collect (map (toPtzPreset N chan) (filter has_id (elems (rawPresets r))))"
  by (auto simp: decodePresets_def Let_def)


lemma list_all2_in_right:
  "list_all2 P xs ys \<Longrightarrow> y \<in> set ys \<Longrightarrow> \<exists>x \<in> set xs. P x y"
  by (induction rule: list_all2_induct) auto

lemma falsy_no_match: "\<not> truthy v \<Longrightarrow> first_match spec_decoders v = None"
  by (cases v)
     (simp_all add: spec_decoders_def decoder_PtzPreset_preset_def decoder_PtzPreset_array_def
        decoder_preset_def decoder_Presets_def decoder_array_def decoder_scan_def
        array_or_lone_def)

lemma decode_spec_raw:
  assumes "\<not> ends_search v"
  shows "decodePresets N chan v = collect (map (toPtzPreset N chan) (filter has_id (spec_raw v)))"
proof (cases "truthy v")
  case False
  then show ?thesis
    by (simp add: decodePresets_def spec_raw_def falsy_no_match)
next
  case True
  have "elems (if \<not> truthy (rawPresets v) \<or> \<not> isArray (rawPresets v) then JArr []
               else rawPresets v) = elems (rawPresets v)"
    by (cases "rawPresets v") simp_all
  moreover have "elems (rawPresets v) = spec_raw v"
    by (simp add: rawPresets_first_match [OF assms] spec_raw_def split: option.splits)
  ultimately show ?thesis
    using True by (simp add: decodePresets_def Let_def)
qed

text \<open>
  Claim C2, as amended. Let \<open>xs\<close> be a list of preset tuples and let two of the documented
  envelopes carry it. Then \<open>listPresets\<close> ends the same way for both replies. It returns
  \<open>ps\<close> exactly when \<open>ps\<close> holds, in order, the coercion of every tuple of \<open>xs\<close> that has a
  non-null \<^verbatim>\<open>id\<close> or \<^verbatim>\<open>ID\<close>; it returns at all exactly when the id, name and channel of
  each of these tuples have a primitive value, and otherwise it throws the \<^verbatim>\<open>TypeError\<close> of
  the conversion. For any reply: unless the search ends early (\<open>ends_search\<close>: at a truthy
  \<^verbatim>\<open>PtzPreset.preset\<close> that is no array, or at a truthy \<^verbatim>\<open>preset\<close> or \<^verbatim>\<open>Presets\<close> that is
  neither array nor object), the records are the coercion of the elements that the first
  matching decoder, in the documented order, extracts; when the search ends early, the
  result is the empty list. The counterexample below is a reply where the first-match
  rule of the specification gives a record and \<open>listPresets\<close> gives none.
\<close>

theorem listPresets_shapes:
  assumes tuples: "\<forall>x \<in> set xs. preset_tuple x"
    and env1: "envelope sh1 xs = Some r1" and env2: "envelope sh2 xs = Some r2"
    and rep1: "replies T1 m1 chan r1" and rep2: "replies T2 m2 chan r2"
  shows "fst (listPresets N T2 chan m2) = fst (listPresets N T1 chan m1)
     \<and> (\<forall>ps. (fst (listPresets N T1 chan m1) = Inr ps)
               = list_all2 (coerced N chan) (filter has_id xs) ps)
     \<and> ((\<exists>ps. fst (listPresets N T1 chan m1) = Inr ps)
          = (\<forall>x \<in> set xs. has_id x \<longrightarrow> tuple_converts x))
     \<and> (\<forall>e. fst (listPresets N T1 chan m1) = Inl e \<longrightarrow> e = TypeError)
     \<and> (\<forall>T m v ps. replies T m chan v \<and> \<not> ends_search v \<longrightarrow>
           (fst (listPresets N T chan m) = Inr ps)
             = list_all2 (coerced N chan) (filter has_id (spec_raw v)) ps)
     \<and> (\<forall>T m v. replies T m chan v \<and> ends_search v \<longrightarrow>
           fst (listPresets N T chan m) = Inr [])"
proof -
  have one: "fst (listPresets N T1 chan m1)
               = collect (map (toPtzPreset N chan) (filter has_id xs))"
    using listPresets_replies [OF rep1] decode_envelope [OF tuples env1] by simp
  have two: "fst (listPresets N T2 chan m2)
               = collect (map (toPtzPreset N chan) (filter has_id xs))"
    using listPresets_replies [OF rep2] decode_envelope [OF tuples env2] by simp
  have same: "fst (listPresets N T2 chan m2) = fst (listPresets N T1 chan m1)"
    by (simp add: one two)
  have records: "\<forall>ps. (fst (listPresets N T1 chan m1) = Inr ps)
               = list_all2 (coerced N chan) (filter has_id xs) ps"
    by (simp add: one coerce_all_Inr)
  have returns: "(\<exists>ps. fst (listPresets N T1 chan m1) = Inr ps)
          = (\<forall>x \<in> set xs. has_id x \<longrightarrow> tuple_converts x)"
    unfolding one by (rule coerce_all_returns)
  have throws: "\<forall>e. fst (listPresets N T1 chan m1) = Inl e \<longrightarrow> e = TypeError"
    unfolding one using coerce_all_error by blast
  have order: "\<forall>T m v ps. replies T m chan v \<and> \<not> ends_search v \<longrightarrow>
           (fst (listPresets N T chan m) = Inr ps)
             = list_all2 (coerced N chan) (filter has_id (spec_raw v)) ps"
  proof (intro allI impI)
    fix T m v ps
    assume h: "replies T m chan v \<and> \<not> ends_search v"
    then have "fst (listPresets N T chan m)
                 = collect (map (toPtzPreset N chan) (filter has_id (spec_raw v)))"
      using listPresets_replies [of T m chan v N] decode_spec_raw [of v N chan] by simp
    then show "(fst (listPresets N T chan m) = Inr ps)
             = list_all2 (coerced N chan) (filter has_id (spec_raw v)) ps"
      by (simp add: coerce_all_Inr)
  qed
  have early: "\<forall>T m v. replies T m chan v \<and> ends_search v \<longrightarrow>
           fst (listPresets N T chan m) = Inr []"
    by (metis listPresets_replies ends_search_empty)
  from same records returns throws order early show ?thesis
    by blast
qed


text \<open>
  Claim C7, as amended. The \<^verbatim>\<open>id\<close> of every record that \<open>listPresets\<close> returns is the
  number of \<^verbatim>\<open>id ?? ID\<close> of a raw element of the reply that has a non-null \<^verbatim>\<open>id\<close> or \<^verbatim>\<open>ID\<close>.
  No range is enforced: the counterexample below is a reply whose preset has id 100,
  which \<open>listPresets\<close> returns as it is.
\<close>

theorem listPresets_id_unchecked:
  assumes "replies T m chan r" and "fst (listPresets N T chan m) = Inr ps"
  shows "\<forall>p \<in> set ps. \<exists>raw \<in> set (elems (rawPresets r)).
           has_id raw \<and> ToNumber N (coalesce (get raw ''id'') (get raw ''ID'')) = Inr (id' p)"
proof
  fix p
  assume p: "p \<in> set ps"
  from assms listPresets_replies [OF assms(1), of N] have dec: "decodePresets N chan r = Inr ps"
    by simp
  from p have "ps \<noteq> []" by auto
  with dec decodePresets_coerce [of N chan r]
  have "collect (map (toPtzPreset N chan) (filter has_id (elems (rawPresets r)))) = Inr ps"
    by auto
  then have "list_all2 (coerced N chan) (filter has_id (elems (rawPresets r))) ps"
    by (simp add: coerce_all_Inr)
  with p obtain raw where "raw \<in> set (filter has_id (elems (rawPresets r)))"
      and "coerced N chan raw p"
    by (blast dest: list_all2_in_right)
  then show "\<exists>raw \<in> set (elems (rawPresets r)).
           has_id raw \<and> ToNumber N (coalesce (get raw ''id'') (get raw ''ID'')) = Inr (id' p)"
    by (auto simp: coerced_def)
qed


theorem listPresets_first_match_counterexample:
  "fst (listPresets decimal_literal
      (\<lambda>evs c p a. Inr (JObj [(''PtzPreset'', JObj [(''preset'', JNum (Num 1))]),
                                (''preset'', JArr [JObj [(''id'', JNum (Num 2))]])]))
      (Num 0) fresh) = Inr []
   \<and> first_match spec_decoders
        (JObj [(''PtzPreset'', JObj [(''preset'', JNum (Num 1))]),
               (''preset'', JArr [JObj [(''id'', JNum (Num 2))]])])
       = Some (JArr [JObj [(''id'', JNum (Num 2))]])
   \<and> has_id (JObj [(''id'', JNum (Num 2))])
   \<and> coerced decimal_literal (Num 0) (JObj [(''id'', JNum (Num 2))])
        \<lparr>id' = Num 2, name = ''Preset 2'', enable = True, channel = Num 0\<rparr>"
proof -
  let ?v = "JObj [(''PtzPreset'', JObj [(''preset'', JNum (Num 1))]),
                  (''preset'', JArr [JObj [(''id'', JNum (Num 2))]])]"
  have "decodePresets decimal_literal (Num 0) ?v = Inr []"
    by (simp add: decodePresets_def rawPresets_def)
  then have code: "fst (listPresets decimal_literal (\<lambda>evs c p a. Inr ?v) (Num 0) fresh) = Inr []"
    by (simp add: listPresets_def request_def)
  have spec: "first_match spec_decoders ?v = Some (JArr [JObj [(''id'', JNum (Num 2))]])"
    by (simp add: spec_decoders_def decoder_PtzPreset_preset_def decoder_PtzPreset_array_def
        decoder_preset_def array_or_lone_def)
  have kept: "has_id (JObj [(''id'', JNum (Num 2))])"
    by (simp add: has_id_def)
  have rec: "coerced decimal_literal (Num 0) (JObj [(''id'', JNum (Num 2))])
        \<lparr>id' = Num 2, name = ''Preset 2'', enable = True, channel = Num 0\<rparr>"
    by code_simp
  from code spec kept rec show ?thesis
    by blast
qed

theorem listPresets_shapes_witness:
  "preset_tuple (JObj [(''id'', JNum (Num 1)), (''name'', JStr ''Home''),
                       (''enable'', JNum (Num 1)), (''channel'', JNum (Num 0))])
   \<and> preset_tuple (JObj [(''ID'', JStr ''7''), (''enable'', JNum (Num 0))])
   \<and> fst (listPresets decimal_literal
        (\<lambda>evs c p a. Inr (JObj [(''PtzPreset'', JObj [(''preset'',
           JArr [JObj [(''id'', JNum (Num 1)), (''name'', JStr ''Home''),
                       (''enable'', JNum (Num 1)), (''channel'', JNum (Num 0))],
                 JObj [(''ID'', JStr ''7''), (''enable'', JNum (Num 0))]])])]))
        (Num 0) fresh)
       = Inr [\<lparr>id' = Num 1, name = ''Home'', enable = True, channel = Num 0\<rparr>,
              \<lparr>id' = Num 7, name = ''Preset 7'', enable = False, channel = Num 0\<rparr>]
   \<and> fst (listPresets decimal_literal
        (\<lambda>evs c p a. Inr (JObj [(''data'',
           JArr [JObj [(''id'', JNum (Num 1)), (''name'', JStr ''Home''),
                       (''enable'', JNum (Num 1)), (''channel'', JNum (Num 0))],
                 JObj [(''ID'', JStr ''7''), (''enable'', JNum (Num 0))]])]))
        (Num 0) fresh)
       = Inr [\<lparr>id' = Num 1, name = ''Home'', enable = True, channel = Num 0\<rparr>,
              \<lparr>id' = Num 7, name = ''Preset 7'', enable = False, channel = Num 0\<rparr>]
   \<and> ends_search (JObj [(''PtzPreset'', JObj [(''preset'', JStr ''none'')])])
   \<and> fst (listPresets decimal_literal
        (\<lambda>evs c p a. Inr (JObj [(''PtzPreset'', JObj [(''preset'', JStr ''none'')])]))
        (Num 0) fresh) = Inr []"
proof -
  let ?a = "JObj [(''id'', JNum (Num 1)), (''name'', JStr ''Home''),
                  (''enable'', JNum (Num 1)), (''channel'', JNum (Num 0))]"
  let ?b = "JObj [(''ID'', JStr ''7''), (''enable'', JNum (Num 0))]"
  let ?T1 = "\<lambda>evs c p a. Inr (JObj [(''PtzPreset'', JObj [(''preset'', JArr [?a, ?b])])])"
  let ?T2 = "\<lambda>evs c p a. Inr (JObj [(''data'', JArr [?a, ?b])])"
  let ?e = "JObj [(''PtzPreset'', JObj [(''preset'', JStr ''none'')])]"
  let ?T3 = "\<lambda>evs c p a. Inr ?e"
  have tuples: "\<forall>x \<in> set [?a, ?b]. preset_tuple x"
    by simp
  have env1: "envelope PtzPreset_preset [?a, ?b]
                = Some (JObj [(''PtzPreset'', JObj [(''preset'', JArr [?a, ?b])])])"
    by simp
  have env2: "envelope (scan_array ''data'') [?a, ?b] = Some (JObj [(''data'', JArr [?a, ?b])])"
    by simp
  have rep1: "replies ?T1 fresh (Num 0) (JObj [(''PtzPreset'', JObj [(''preset'', JArr [?a, ?b])])])"
    by (simp add: replies_def)
  have rep2: "replies ?T2 fresh (Num 0) (JObj [(''data'', JArr [?a, ?b])])"
    by (simp add: replies_def)
  have rep3: "replies ?T3 fresh (Num 0) ?e"
    by (simp add: replies_def)
  have early: "ends_search ?e"
    by (simp add: ends_search_def)
  have records: "list_all2 (coerced decimal_literal (Num 0)) (filter has_id [?a, ?b])
       [\<lparr>id' = Num 1, name = ''Home'', enable = True, channel = Num 0\<rparr>,
        \<lparr>id' = Num 7, name = ''Preset 7'', enable = False, channel = Num 0\<rparr>]"
    by code_simp
  note main = listPresets_shapes [OF tuples env1 env2 rep1 rep2, of decimal_literal]
  from main records have one: "fst (listPresets decimal_literal ?T1 (Num 0) fresh)
       = Inr [\<lparr>id' = Num 1, name = ''Home'', enable = True, channel = Num 0\<rparr>,
              \<lparr>id' = Num 7, name = ''Preset 7'', enable = False, channel = Num 0\<rparr>]"
    by blast
  from main have two: "fst (listPresets decimal_literal ?T2 (Num 0) fresh)
       = fst (listPresets decimal_literal ?T1 (Num 0) fresh)"
    by blast
  from main rep3 early have three: "fst (listPresets decimal_literal ?T3 (Num 0) fresh) = Inr []"
    by blast
  from one two three early show ?thesis
    by simp
qed



theorem listPresets_id_range_counterexample:
  "fst (listPresets decimal_literal
      (\<lambda>evs c p a. Inr (JObj [(''PtzPreset'', JObj [(''preset'',
         JArr [JObj [(''id'', JNum (Num 100)), (''name'', JStr ''Far'')]])])]))
      (Num 0) fresh)
     = Inr [\<lparr>id' = Num 100, name = ''Far'', enable = True, channel = Num 0\<rparr>]
   \<and> \<not> id_in_range (id' \<lparr>id' = Num 100, name = ''Far'', enable = True, channel = Num 0\<rparr>)"
  by (simp add: listPresets_def request_def decodePresets_def rawPresets_def has_id_def
      toPtzPreset_def coalesce_def strict_eq_num_def fresh_def)

theorem listPresets_id_unchecked_witness:
  "replies (\<lambda>evs c p a. Inr (JArr [JObj [(''id'', JNum (Num 0))]])) fresh (Num 2)
      (JArr [JObj [(''id'', JNum (Num 0))]])
   \<and> fst (listPresets decimal_literal
        (\<lambda>evs c p a. Inr (JArr [JObj [(''id'', JNum (Num 0))]])) (Num 2) fresh)
       = Inr [\<lparr>id' = Num 0, name = ''Preset 0'', enable = True, channel = Num 2\<rparr>]
   \<and> has_id (JObj [(''id'', JNum (Num 0))])
   \<and> ToNumber decimal_literal (coalesce (get (JObj [(''id'', JNum (Num 0))]) ''id'')
                          (get (JObj [(''id'', JNum (Num 0))]) ''ID'')) = Inr (Num 0)"
proof -
  let ?r = "JArr [JObj [(''id'', JNum (Num 0))]]"
  let ?T = "\<lambda>evs c p a. Inr ?r"
  have rep: "replies ?T fresh (Num 2) ?r"
    by (simp add: replies_def)
  have "decodePresets decimal_literal (Num 2) ?r
       = Inr [\<lparr>id' = Num 0, name = ''Preset 0'', enable = True, channel = Num 2\<rparr>]"
    by code_simp
  with listPresets_replies [OF rep, of decimal_literal]
  have res: "fst (listPresets decimal_literal ?T (Num 2) fresh)
       = Inr [\<lparr>id' = Num 0, name = ''Preset 0'', enable = True, channel = Num 2\<rparr>]"
    by simp
  show ?thesis
    using listPresets_id_unchecked [OF rep res] rep res
    by (simp add: has_id_def coalesce_def)
qed

subsection \<open>The zone pipeline\<close>

lemma writes_append: "writes (xs @ ys) = writes xs @ writes ys"
  by (simp add: writes_def map_filter_def)

lemma writes_Nil: "writes [] = []"
  by (simp add: writes_def map_filter_def)

lemma writes_single: "writes [ev] = (case write_of ev of None \<Rightarrow> [] | Some w \<Rightarrow> [w])"
  by (simp add: writes_def map_filter_def split: option.splits)

lemma performs_skip: "performs m (Inr (), m) []"
  by (simp add: performs_def writes_Nil)

lemma performs_seq:
  assumes first: "performs m (r1, m1) ws1"
    and second: "r1 = Inr () \<Longrightarrow> performs m1 res2 ws2"
  shows "performs m (case r1 of Inl e \<Rightarrow> (Inl e, m1) | Inr u \<Rightarrow> res2) (ws1 @ ws2)"
proof (cases r1)
  case (Inl e)
  with first show ?thesis
    by (auto simp: performs_def)
next
  case (Inr u)
  then have ok: "r1 = Inr ()" by simp
  from first ok obtain evs1 where e1: "trace m1 = trace m @ evs1" "writes evs1 = ws1"
    by (auto simp: performs_def)
  from second [OF ok] obtain evs2 where e2: "trace (snd res2) = trace m1 @ evs2"
      "prefix (writes evs2) ws2" "fst res2 = Inr () \<longrightarrow> writes evs2 = ws2"
    by (auto simp: performs_def)
  have "trace (snd res2) = trace m @ (evs1 @ evs2)"
    using e1 e2 by simp
  moreover have "prefix (writes (evs1 @ evs2)) (ws1 @ ws2)"
    using e1 e2 by (simp add: writes_append)
  moreover have "fst res2 = Inr () \<longrightarrow> writes (evs1 @ evs2) = ws1 @ ws2"
    using e1 e2 by (simp add: writes_append)
  ultimately show ?thesis
    unfolding performs_def using Inr by auto
qed

lemma performs_setMasks: "performs m (setMasks T chan ms en m) [MaskWrite (JNum en)]"
  by (auto simp: performs_def setMasks_def request_def writes_single split: sum.splits)

lemma performs_setAiZone: "performs m (setAiZone T chan type area m) [AiWrite (JStr type)]"
  by (auto simp: performs_def setAiZone_def request_def writes_single writes_Nil
      split: sum.splits)

lemma performs_writeMdAlarm:
  "trace (snd (writeMdAlarm T payload m1)) = trace m1 @ [Request ''SetMdAlarm'' (JObj [(''MdAlarm'', payload)]) None]"
  by (simp add: writeMdAlarm_def request_def split: sum.splits)

lemma performs_setMdZone: "performs m (setMdZone T chan area m) [MdWrite]"
proof (cases "buildScope area")
  case (Inl e)
  then show ?thesis
    by (simp add: setMdZone_def performs_def writes_Nil)
next
  case (Inr scope)
  let ?get = "Request ''GetMdAlarm'' (JObj [(''channel'', JNum chan)]) None"
  let ?m1 = "m\<lparr>trace := trace m @ [?get]\<rparr>"
  have w: "\<And>payload. writes [?get, Request ''SetMdAlarm'' (JObj [(''MdAlarm'', payload)]) None]
              = [MdWrite]"
    by (simp add: writes_def map_filter_def)
  have w0: "writes [?get] = []"
    by (simp add: writes_def map_filter_def)
  show ?thesis
  proof (cases "T (trace m) ''GetMdAlarm'' (JObj [(''channel'', JNum chan)]) None")
    case (Inl err)
    show ?thesis
    proof (cases err)
      case (ReolinkHttpError code msg)
      with Inl Inr have "setMdZone T chan area m = (Inl (ReolinkHttpError code msg), ?m1)"
        by (simp add: setMdZone_def request_def)
      then show ?thesis
        by (simp add: performs_def w0)
    next
      case (Error msg)
      with Inl Inr have "setMdZone T chan area m
          = writeMdAlarm T (minimalMdAlarm chan scope (bits area)) ?m1"
        by (simp add: setMdZone_def request_def)
      then show ?thesis
        unfolding performs_def
        by (intro exI [of _ "[?get, Request ''SetMdAlarm''
              (JObj [(''MdAlarm'', minimalMdAlarm chan scope (bits area))]) None]"])
           (simp add: performs_writeMdAlarm w)
    qed
  next
    case (Inr current)
    have "setMdZone T chan area m
            = writeMdAlarm T
                (if truthy (coalesce (get current ''MdAlarm'') current)
                    \<and> typeof_object (coalesce (get current ''MdAlarm'') current)
                 then mergeMdAlarm chan scope (bits area) (coalesce (get current ''MdAlarm'') current)
                 else minimalMdAlarm chan scope (bits area)) ?m1"
      using Inr \<open>buildScope area = Inr scope\<close>
      by (simp add: setMdZone_def request_def Let_def)
    then obtain payload where "setMdZone T chan area m = writeMdAlarm T payload ?m1"
      by blast
    then show ?thesis
      unfolding performs_def
      by (intro exI [of _ "[?get, Request ''SetMdAlarm'' (JObj [(''MdAlarm'', payload)]) None]"])
         (simp add: performs_writeMdAlarm w)
  qed
qed


lemma case_pair_sum:
  "(case res of (Inl e, m1) \<Rightarrow> (Inl e, m1) | (Inr u, m1) \<Rightarrow> f m1)
     = (case fst res of Inl e \<Rightarrow> (Inl e, snd res) | Inr u \<Rightarrow> f (snd res))"
  by (cases res) (simp split: sum.splits)

lemma performs_applyAiZones:
  "performs m (applyAiZones T chan entries m) (entry_writes entries)"
proof (induction entries arbitrary: m rule: entry_writes.induct)
  case 1
  show ?case by (simp add: performs_skip)
next
  case (2 type entries)
  then show ?case by simp
next
  case (3 type area entries)
  have "performs m
          (case fst (setAiZone T chan type area m) of
             Inl e \<Rightarrow> (Inl e, snd (setAiZone T chan type area m))
           | Inr u \<Rightarrow> applyAiZones T chan entries (snd (setAiZone T chan type area m)))
          ([AiWrite (JStr type)] @ entry_writes entries)"
    by (rule performs_seq) (simp_all add: performs_setAiZone "3.IH")
  then show ?case
    by (simp add: case_pair_sum)
qed

lemma performs_applyZonesForPreset:
  "performs m (applyZonesForPreset T chan presetId zones m) (writes_in_entry_order zones)"
proof -
  let ?masks = "case masks zones of
                  Some ms \<Rightarrow> setMasks T chan ms (if length ms > 0 then Num 1 else Num 0) m
                | None \<Rightarrow> (Inr (), m)"
  let ?md = "\<lambda>m1. case md zones of Some area \<Rightarrow> setMdZone T chan area m1 | None \<Rightarrow> (Inr (), m1)"
  let ?ai = "\<lambda>m2. case ai zones of Some entries \<Rightarrow> applyAiZones T chan entries m2
                                   | None \<Rightarrow> (Inr (), m2)"
  let ?ai_writes = "case ai zones of None \<Rightarrow> [] | Some entries \<Rightarrow> entry_writes entries"
  let ?tail = "\<lambda>m1. case fst (?md m1) of
                       Inl e \<Rightarrow> (Inl e, snd (?md m1))
                     | Inr u \<Rightarrow> ?ai (snd (?md m1))"
  have p_masks: "performs m (fst ?masks, snd ?masks) (mask_writes zones)"
    by (cases "masks zones") (simp_all add: mask_writes_def performs_skip performs_setMasks)
  have p_md: "performs m1 (fst (?md m1), snd (?md m1)) (md_writes zones)" for m1
    by (cases "md zones") (simp_all add: md_writes_def performs_skip performs_setMdZone)
  have p_ai: "performs m2 (?ai m2) ?ai_writes" for m2
    by (cases "ai zones") (simp_all add: performs_skip performs_applyAiZones)
  have p_tail: "performs m1 (?tail m1) (md_writes zones @ ?ai_writes)" for m1
    using performs_seq [OF p_md [of m1] p_ai [of "snd (?md m1)"]] .
  have "performs m
          (case fst ?masks of Inl e \<Rightarrow> (Inl e, snd ?masks) | Inr u \<Rightarrow> ?tail (snd ?masks))
          (mask_writes zones @ (md_writes zones @ ?ai_writes))"
    using performs_seq [OF p_masks p_tail [of "snd ?masks"]] .
  moreover have "applyZonesForPreset T chan presetId zones m
      = (case fst ?masks of Inl e \<Rightarrow> (Inl e, snd ?masks) | Inr u \<Rightarrow> ?tail (snd ?masks))"
    unfolding applyZonesForPreset_def case_pair_sum ..
  ultimately show ?thesis
    by (simp add: writes_in_entry_order_def)
qed

lemma entry_writes_in_order:
  assumes "subseq ks ys" and "ks = map fst entries" and "distinct ys"
  shows "entry_writes entries
           = map (\<lambda>type. AiWrite (JStr type))
               (filter (\<lambda>type. case map_of entries type of Some (Some area) \<Rightarrow> True | _ \<Rightarrow> False) ys)"
  using assms
proof (induction ks ys arbitrary: entries rule: list_emb.induct)
  case (list_emb_Nil ys)
  then show ?case by simp
next
  case (list_emb_Cons ks ys y)
  from list_emb_Cons.hyps have "set ks \<subseteq> set ys"
    by (auto dest: list_emb_set)
  with list_emb_Cons.prems have "y \<notin> set ks"
    by auto
  then have "map_of entries y = None"
    using list_emb_Cons.prems by (simp add: map_of_eq_None_iff)
  then show ?case
    using list_emb_Cons by simp
next
  case (list_emb_Cons2 k y ks ys)
  then obtain a rest where e: "entries = (y, a) # rest" and ks: "ks = map fst rest"
    by (cases entries) auto
  from list_emb_Cons2 have fresh: "y \<notin> set ys" and d: "distinct ys"
    by simp_all
  have same: "filter (\<lambda>type. case map_of entries type of Some (Some area) \<Rightarrow> True | _ \<Rightarrow> False) ys
            = filter (\<lambda>type. case map_of rest type of Some (Some area) \<Rightarrow> True | _ \<Rightarrow> False) ys"
    using fresh by (intro filter_cong) (auto simp: e)
  have IH: "entry_writes rest
           = map (\<lambda>type. AiWrite (JStr type))
               (filter (\<lambda>type. case map_of rest type of Some (Some area) \<Rightarrow> True | _ \<Rightarrow> False) ys)"
    using list_emb_Cons2.IH [OF ks d] .
  show ?case
  proof (cases a)
    case None
    then show ?thesis
      using IH by (simp add: same) (simp add: e)
  next
    case (Some area)
    then show ?thesis
      using IH by (simp add: same) (simp add: e)
  qed
qed

text \<open>
  Claim C1, as amended. \<open>applyZonesForPreset\<close> only adds to the trace. The writes it adds
  are a prefix of: the mask write (if \<^verbatim>\<open>zones.masks\<close> is present, with \<^verbatim>\<open>enable\<close> 1 exactly for
  a non-empty list), then the motion-zone write (if \<^verbatim>\<open>zones.md\<close> is present), then one
  AI-zone write per populated entry of \<^verbatim>\<open>zones.ai\<close> in the order of the entries; and they
  are all of these when the call succeeds. That order is the enumeration order
  \<^verbatim>\<open>people\<close>, \<^verbatim>\<open>vehicle\<close>, \<^verbatim>\<open>dog_cat\<close>, \<^verbatim>\<open>face\<close> when the keys of \<^verbatim>\<open>zones.ai\<close> were added
  in that order. The counterexample below adds \<^verbatim>\<open>face\<close> before \<^verbatim>\<open>people\<close>, and the writes
  follow the entries, not the enumeration.
\<close>

theorem applyZones_write_order:
  "trace (snd (applyZonesForPreset T chan presetId zones m))
     = trace m @ issued m (snd (applyZonesForPreset T chan presetId zones m))
   \<and> prefix (writes (issued m (snd (applyZonesForPreset T chan presetId zones m))))
        (writes_in_entry_order zones)
   \<and> (fst (applyZonesForPreset T chan presetId zones m) = Inr () \<longrightarrow>
        writes (issued m (snd (applyZonesForPreset T chan presetId zones m)))
          = writes_in_entry_order zones)
   \<and> (\<forall>entries. ai zones = Some entries \<and> subseq (map fst entries) SUPPORTED_AI_TYPES \<longrightarrow>
        writes_in_entry_order zones = writes_in_enum_order zones)"
proof -
  have "writes_in_entry_order zones = writes_in_enum_order zones"
    if "ai zones = Some entries" and "subseq (map fst entries) SUPPORTED_AI_TYPES" for entries
  proof -
    have "distinct SUPPORTED_AI_TYPES"
      by (simp add: SUPPORTED_AI_TYPES_def)
    from entry_writes_in_order [OF that(2) refl this] that(1) show ?thesis
      by (simp add: writes_in_entry_order_def writes_in_enum_order_def)
  qed
  then show ?thesis
    using performs_applyZonesForPreset [of m T chan presetId zones]
    by (auto simp: performs_def issued_def)
qed

lemma apply_example:
  "applyZonesForPreset (\<lambda>evs c p a. Inr Null) (Num 0) (Num 1)
      \<lparr>md = Some \<lparr>width = Num 1, height = Num 1, bits = ''1''\<rparr>,
       ai = Some [(''face'', Some \<lparr>width = Num 1, height = Num 1, bits = ''1''\<rparr>),
                  (''vehicle'', None),
                  (''people'', Some \<lparr>width = Num 1, height = Num 1, bits = ''0''\<rparr>)],
       masks = Some []\<rparr> fresh
   = (Inr (),
      fresh\<lparr>trace :=
        [Request ''SetMask'' (JObj [(''Mask'', JObj [(''channel'', JNum (Num 0)),
            (''enable'', JNum (Num 0)), (''area'', JArr [])])]) None,
         Request ''GetMdAlarm'' (JObj [(''channel'', JNum (Num 0))]) None,
         Request ''SetMdAlarm'' (JObj [(''MdAlarm'', JObj [(''channel'', JNum (Num 0)),
            (''scope'', JObj [(''width'', JNum (Num 1)), (''height'', JNum (Num 1)),
               (''cols'', JNum (Num 1)), (''rows'', JNum (Num 1)), (''table'', JStr ''1'')]),
            (''table'', JStr ''1'')])]) None,
         Request ''SetAlarmArea'' (JObj [(''channel'', JNum (Num 0)), (''ai_type'', JStr ''face''),
            (''width'', JNum (Num 1)), (''height'', JNum (Num 1)), (''area'', JStr ''1'')]) None,
         Request ''SetAlarmArea'' (JObj [(''channel'', JNum (Num 0)), (''ai_type'', JStr ''people''),
            (''width'', JNum (Num 1)), (''height'', JNum (Num 1)), (''area'', JStr ''0'')]) None]\<rparr>)"
  by (simp add: applyZonesForPreset_def setMasks_def setMdZone_def setAiZone_def request_def
      buildScope_def writeMdAlarm_def minimalMdAlarm_def coalesce_def fresh_def
      SUPPORTED_AI_TYPES_def)

theorem applyZones_enum_order_counterexample:
  "fst (applyZonesForPreset (\<lambda>evs c p a. Inr Null) (Num 0) (Num 1)
      \<lparr>md = Some \<lparr>width = Num 1, height = Num 1, bits = ''1''\<rparr>,
       ai = Some [(''face'', Some \<lparr>width = Num 1, height = Num 1, bits = ''1''\<rparr>),
                  (''vehicle'', None),
                  (''people'', Some \<lparr>width = Num 1, height = Num 1, bits = ''0''\<rparr>)],
       masks = Some []\<rparr> fresh) = Inr ()
   \<and> writes (trace (snd (applyZonesForPreset (\<lambda>evs c p a. Inr Null) (Num 0) (Num 1)
      \<lparr>md = Some \<lparr>width = Num 1, height = Num 1, bits = ''1''\<rparr>,
       ai = Some [(''face'', Some \<lparr>width = Num 1, height = Num 1, bits = ''1''\<rparr>),
                  (''vehicle'', None),
                  (''people'', Some \<lparr>width = Num 1, height = Num 1, bits = ''0''\<rparr>)],
       masks = Some []\<rparr> fresh)))
     = [MaskWrite (JNum (Num 0)), MdWrite, AiWrite (JStr ''face''), AiWrite (JStr ''people'')]
   \<and> writes_in_enum_order
      \<lparr>md = Some \<lparr>width = Num 1, height = Num 1, bits = ''1''\<rparr>,
       ai = Some [(''face'', Some \<lparr>width = Num 1, height = Num 1, bits = ''1''\<rparr>),
                  (''vehicle'', None),
                  (''people'', Some \<lparr>width = Num 1, height = Num 1, bits = ''0''\<rparr>)],
       masks = Some []\<rparr>
     = [MaskWrite (JNum (Num 0)), MdWrite, AiWrite (JStr ''people''), AiWrite (JStr ''face'')]
   \<and> writes (trace (snd (applyZonesForPreset (\<lambda>evs c p a. Inr Null) (Num 0) (Num 1)
      \<lparr>md = Some \<lparr>width = Num 1, height = Num 1, bits = ''1''\<rparr>,
       ai = Some [(''face'', Some \<lparr>width = Num 1, height = Num 1, bits = ''1''\<rparr>),
                  (''vehicle'', None),
                  (''people'', Some \<lparr>width = Num 1, height = Num 1, bits = ''0''\<rparr>)],
       masks = Some []\<rparr> fresh)))
     \<noteq> writes_in_enum_order
      \<lparr>md = Some \<lparr>width = Num 1, height = Num 1, bits = ''1''\<rparr>,
       ai = Some [(''face'', Some \<lparr>width = Num 1, height = Num 1, bits = ''1''\<rparr>),
                  (''vehicle'', None),
                  (''people'', Some \<lparr>width = Num 1, height = Num 1, bits = ''0''\<rparr>)],
       masks = Some []\<rparr>"
  by (simp add: apply_example writes_def map_filter_def writes_in_enum_order_def
      mask_writes_def md_writes_def SUPPORTED_AI_TYPES_def)

theorem applyZones_write_order_witness:
  "fst (applyZonesForPreset (\<lambda>evs c p a. Inr Null) (Num 0) (Num 1)
      \<lparr>md = Some \<lparr>width = Num 1, height = Num 1, bits = ''1''\<rparr>,
       ai = Some [(''face'', Some \<lparr>width = Num 1, height = Num 1, bits = ''1''\<rparr>),
                  (''vehicle'', None),
                  (''people'', Some \<lparr>width = Num 1, height = Num 1, bits = ''0''\<rparr>)],
       masks = Some []\<rparr> fresh) = Inr ()
   \<and> writes (issued fresh (snd (applyZonesForPreset (\<lambda>evs c p a. Inr Null) (Num 0) (Num 1)
      \<lparr>md = Some \<lparr>width = Num 1, height = Num 1, bits = ''1''\<rparr>,
       ai = Some [(''face'', Some \<lparr>width = Num 1, height = Num 1, bits = ''1''\<rparr>),
                  (''vehicle'', None),
                  (''people'', Some \<lparr>width = Num 1, height = Num 1, bits = ''0''\<rparr>)],
       masks = Some []\<rparr> fresh)))
     = [MaskWrite (JNum (Num 0)), MdWrite, AiWrite (JStr ''face''), AiWrite (JStr ''people'')]
   \<and> subseq [''people'', ''face''] SUPPORTED_AI_TYPES
   \<and> writes_in_enum_order
        \<lparr>md = None,
         ai = Some [(''people'', Some \<lparr>width = Num 1, height = Num 1, bits = ''0''\<rparr>),
                    (''face'', Some \<lparr>width = Num 1, height = Num 1, bits = ''1''\<rparr>)],
         masks = None\<rparr>
      = [AiWrite (JStr ''people''), AiWrite (JStr ''face'')]"
proof -
  let ?zones = "\<lparr>md = Some \<lparr>width = Num 1, height = Num 1, bits = ''1''\<rparr>,
       ai = Some [(''face'', Some \<lparr>width = Num 1, height = Num 1, bits = ''1''\<rparr>),
                  (''vehicle'', None),
                  (''people'', Some \<lparr>width = Num 1, height = Num 1, bits = ''0''\<rparr>)],
       masks = Some []\<rparr>"
  have ok: "fst (applyZonesForPreset (\<lambda>evs c p a. Inr Null) (Num 0) (Num 1) ?zones fresh) = Inr ()"
    by (simp add: apply_example)
  have order: "writes_in_entry_order ?zones
     = [MaskWrite (JNum (Num 0)), MdWrite, AiWrite (JStr ''face''), AiWrite (JStr ''people'')]"
    by (simp add: writes_in_entry_order_def mask_writes_def md_writes_def)
  let ?sorted = "\<lparr>md = None,
         ai = Some [(''people'', Some \<lparr>width = Num 1, height = Num 1, bits = ''0''\<rparr>),
                    (''face'', Some \<lparr>width = Num 1, height = Num 1, bits = ''1''\<rparr>)],
         masks = None\<rparr>"
  have sub: "subseq [''people'', ''face''] SUPPORTED_AI_TYPES"
    by (simp add: SUPPORTED_AI_TYPES_def)
  have order': "writes_in_entry_order ?sorted = [AiWrite (JStr ''people''), AiWrite (JStr ''face'')]"
    by (simp add: writes_in_entry_order_def mask_writes_def md_writes_def)
  show ?thesis
    using applyZones_write_order [of "\<lambda>evs c p a. Inr Null" "Num 0" "Num 1" ?zones fresh]
      applyZones_write_order [of "\<lambda>evs c p a. Inr Null" "Num 0" "Num 1" ?sorted fresh]
      ok order sub order'
    by simp
qed

subsection \<open>Capability cache\<close>

lemma count_command_simps:
  "count_command cmd [] = 0"
  "count_command cmd (Request c p a # evs) = (if c = cmd then 1 else 0) + count_command cmd evs"
  "count_command cmd (xs @ ys) = count_command cmd xs + count_command cmd ys"
  by (simp_all add: count_command_def is_command_def)

lemma getChannelAbility_effect:
  "\<exists>ability evs. fst (getChannelAbility T c m) = Inr ability
     \<and> trace (snd (getChannelAbility T c m)) = trace m @ evs
     \<and> (evs = [] \<or> evs = [Request ''GetAbility'' (JObj []) None])
     \<and> aiSupportCache (snd (getChannelAbility T c m)) = aiSupportCache m"
  by (auto simp: getChannelAbility_def request_def Let_def split: option.splits sum.splits)

lemma getAiCfg_effect:
  "trace (snd (getAiCfg T (Some c) m))
     = trace m @ [Request ''GetAiCfg'' (JObj [(''channel'', JNum c)]) (Some (Num 1))]
   \<and> aiSupportCache (snd (getAiCfg T (Some c) m)) = aiSupportCache m"
  by (simp add: getAiCfg_def request_def Let_def split: sum.splits)

lemma getSupportedAiTypes_cached:
  "aiSupportCache m c = Some ts \<Longrightarrow> getSupportedAiTypes T c m = (Inr ts, m)"
  by (simp add: getSupportedAiTypes_def)

lemma getSupportedAiTypes_tier1:
  assumes "aiSupportCache m c = None" and "tier1 T c m \<noteq> []"
  shows "getSupportedAiTypes T c m
           = (Inr (tier1 T c m),
              (snd (getChannelAbility T c m))
                \<lparr>aiSupportCache := (aiSupportCache (snd (getChannelAbility T c m)))(c \<mapsto> tier1 T c m)\<rparr>)"
  using assms
  by (cases "getChannelAbility T c m"; cases "fst (getChannelAbility T c m)")
     (auto simp: getSupportedAiTypes_def tier1_def Let_def split: prod.splits sum.splits)

lemma getSupportedAiTypes_tier2:
  assumes "aiSupportCache m c = None" and "tier1 T c m = []"
  shows "\<exists>ts. getSupportedAiTypes T c m
           = (Inr ts,
              (snd (getAiCfg T (Some c) (snd (getChannelAbility T c m))))
                \<lparr>aiSupportCache :=
                   (aiSupportCache (snd (getAiCfg T (Some c) (snd (getChannelAbility T c m)))))
                     (c \<mapsto> ts)\<rparr>)"
  using assms
  by (cases "getChannelAbility T c m"; cases "fst (getChannelAbility T c m)";
      cases "getAiCfg T (Some c) (snd (getChannelAbility T c m))";
      cases "fst (getAiCfg T (Some c) (snd (getChannelAbility T c m)))")
     (auto simp: getSupportedAiTypes_def tier1_def Let_def split: prod.splits sum.splits)


lemma getSupportedAiTypes_call:
  fixes T c m
  defines "res \<equiv> getSupportedAiTypes T c m"
  shows "(\<exists>ts. fst res = Inr ts)
     \<and> trace (snd res) = trace m @ issued m (snd res)
     \<and> count_command ''GetAbility'' (issued m (snd res)) \<le> 1
     \<and> count_command ''GetAiCfg'' (issued m (snd res)) \<le> 1
     \<and> (aiSupportCache m c \<noteq> None \<longrightarrow> issued m (snd res) = [])
     \<and> aiSupportCache (snd res) c \<noteq> None
     \<and> (\<forall>x. aiSupportCache m x \<noteq> None \<longrightarrow> aiSupportCache (snd res) x \<noteq> None)
     \<and> (0 < count_command ''GetAiCfg'' (issued m (snd res)) \<longrightarrow>
          aiSupportCache m c = None \<and> tier1 T c m = [])"
proof (cases "aiSupportCache m c")
  case (Some ts)
  then show ?thesis
    by (simp add: res_def getSupportedAiTypes_cached issued_def count_command_simps)
next
  case None
  obtain ability evs where ga: "fst (getChannelAbility T c m) = Inr ability"
      "trace (snd (getChannelAbility T c m)) = trace m @ evs"
      "evs = [] \<or> evs = [Request ''GetAbility'' (JObj []) None]"
      "aiSupportCache (snd (getChannelAbility T c m)) = aiSupportCache m"
    using getChannelAbility_effect [of T c m] by blast
  have ab: "count_command ''GetAbility'' evs \<le> 1" "count_command ''GetAiCfg'' evs = 0"
    using ga(3) by (auto simp: count_command_simps)
  show ?thesis
  proof (cases "tier1 T c m = []")
    case False
    show ?thesis
      unfolding res_def getSupportedAiTypes_tier1 [OF None False]
      using ga ab None False by (simp add: issued_def)
  next
    case True
    let ?m1 = "snd (getChannelAbility T c m)"
    note cfg = getAiCfg_effect [of T c ?m1]
    from getSupportedAiTypes_tier2 [OF None True] obtain ts where
      r: "getSupportedAiTypes T c m
           = (Inr ts, (snd (getAiCfg T (Some c) ?m1))
                \<lparr>aiSupportCache := (aiSupportCache (snd (getAiCfg T (Some c) ?m1)))(c \<mapsto> ts)\<rparr>)"
      by blast
    show ?thesis
      unfolding res_def r
      using ga ab cfg None True by (simp add: issued_def count_command_simps)
  qed
qed

lemma issued_for_Cons:
  "issued_for c ((c', r, evs) # cl) = (if c' = c then evs @ issued_for c cl else issued_for c cl)"
  by (simp add: issued_for_def)

lemma calls_at_most_once:
  assumes "cmd = ''GetAbility'' \<or> cmd = ''GetAiCfg''"
  shows "count_command cmd (issued_for c (calls T cs m))
           \<le> (if aiSupportCache m c = None then 1 else 0)"
proof (induction cs arbitrary: m)
  case Nil
  show ?case by (simp add: issued_for_def count_command_simps)
next
  case (Cons c' cs)
  let ?res = "getSupportedAiTypes T c' m"
  note call = getSupportedAiTypes_call [of T c' m]
  have step: "calls T (c' # cs) m = (c', fst ?res, issued m (snd ?res)) # calls T cs (snd ?res)"
    by (simp add: case_prod_beta)
  note IH = Cons.IH [of "snd ?res"]
  show ?case
  proof (cases "c' = c")
    case False
    have "aiSupportCache m c \<noteq> None \<longrightarrow> aiSupportCache (snd ?res) c \<noteq> None"
      using call by blast
    with IH False show ?thesis
      unfolding step issued_for_Cons by (auto split: if_splits)
  next
    case True
    have cached: "aiSupportCache (snd ?res) c \<noteq> None"
      using call True by blast
    have one: "count_command cmd (issued m (snd ?res)) \<le> 1"
      using call assms by blast
    have none: "aiSupportCache m c \<noteq> None \<longrightarrow> issued m (snd ?res) = []"
      using call True by blast
    from IH cached have rest: "count_command cmd (issued_for c (calls T cs (snd ?res))) = 0"
      by (simp split: if_splits)
    show ?thesis
      unfolding step issued_for_Cons using True one none rest
      by (auto simp: count_command_simps)
  qed
qed

lemma calls_never_throw:
  "\<forall>(c, r, evs) \<in> set (calls T cs m). \<exists>ts. r = Inr ts"
proof (induction cs arbitrary: m)
  case Nil
  show ?case by simp
next
  case (Cons c' cs)
  have "\<exists>ts. fst (getSupportedAiTypes T c' m) = Inr ts"
    using getSupportedAiTypes_call [of T c' m] by blast
  with Cons.IH [of "snd (getSupportedAiTypes T c' m)"] show ?case
    by (simp add: case_prod_beta)
qed

text \<open>
  Claim C5. Let a client call \<open>getSupportedAiTypes\<close> for any list of channels, one call
  after the other on one module, started in any state (a fresh one in particular) and
  against any transport, failing or not. Then all the calls for one channel together
  issue at most one \<^verbatim>\<open>GetAbility\<close> request and at most one \<^verbatim>\<open>GetAiCfg\<close> request, and no call
  throws. For a single call: it returns a list and only adds to the trace; when the
  channel is already in the AI-support cache it returns the cached list and changes
  nothing; it leaves the channel in that cache, whatever the transport answered; and it
  issues the \<^verbatim>\<open>GetAiCfg\<close> request only when the first tier has yielded no type.
\<close>

theorem getSupportedAiTypes_memoized:
  "count_command ''GetAbility'' (issued_for c (calls T cs m0)) \<le> 1
   \<and> count_command ''GetAiCfg'' (issued_for c (calls T cs m0)) \<le> 1
   \<and> (\<forall>(c', r, evs) \<in> set (calls T cs m0). \<exists>ts. r = Inr ts)
   \<and> (\<exists>ts. fst (getSupportedAiTypes T c m) = Inr ts)
   \<and> trace (snd (getSupportedAiTypes T c m))
       = trace m @ issued m (snd (getSupportedAiTypes T c m))
   \<and> (\<forall>ts. aiSupportCache m c = Some ts \<longrightarrow> getSupportedAiTypes T c m = (Inr ts, m))
   \<and> aiSupportCache (snd (getSupportedAiTypes T c m)) c \<noteq> None
   \<and> (0 < count_command ''GetAiCfg'' (issued m (snd (getSupportedAiTypes T c m))) \<longrightarrow>
        tier1 T c m = [])"
proof -
  have "count_command ''GetAbility'' (issued_for c (calls T cs m0)) \<le> 1"
    using calls_at_most_once [of "''GetAbility''" c T cs m0] by (simp split: if_splits)
  moreover have "count_command ''GetAiCfg'' (issued_for c (calls T cs m0)) \<le> 1"
    using calls_at_most_once [of "''GetAiCfg''" c T cs m0] by (simp split: if_splits)
  ultimately show ?thesis
    using calls_never_throw [of T cs m0] getSupportedAiTypes_call [of T c m]
      getSupportedAiTypes_cached [of m c _ T]
    by blast
qed

lemma failing_first_call:
  "getSupportedAiTypes (\<lambda>evs c p a. Inl (Error ''offline'')) (Num 0) fresh
     = (Inr [],
        \<lparr>trace = [Request ''GetAbility'' (JObj []) None,
                  Request ''GetAiCfg'' (JObj [(''channel'', JNum (Num 0))]) (Some (Num 1))],
         abilityCache = [Num 0 \<mapsto> JObj []],
         aiSupportCache = [Num 0 \<mapsto> []]\<rparr>)"
  by (simp add: getSupportedAiTypes_def getChannelAbility_def getAiCfg_def request_def fresh_def
      abilityFlags_def coalesce_def)

lemma failing_second_call:
  "getSupportedAiTypes (\<lambda>evs c p a. Inl (Error ''offline'')) (Num 0)
        \<lparr>trace = [Request ''GetAbility'' (JObj []) None,
                  Request ''GetAiCfg'' (JObj [(''channel'', JNum (Num 0))]) (Some (Num 1))],
         abilityCache = [Num 0 \<mapsto> JObj []],
         aiSupportCache = [Num 0 \<mapsto> []]\<rparr>
     = (Inr [],
        \<lparr>trace = [Request ''GetAbility'' (JObj []) None,
                  Request ''GetAiCfg'' (JObj [(''channel'', JNum (Num 0))]) (Some (Num 1))],
         abilityCache = [Num 0 \<mapsto> JObj []],
         aiSupportCache = [Num 0 \<mapsto> []]\<rparr>)"
  by (simp add: getSupportedAiTypes_def)

theorem getSupportedAiTypes_memoized_witness:
  "calls (\<lambda>evs c p a. Inl (Error ''offline'')) [Num 0, Num 0] fresh
     = [(Num 0, Inr [],
         [Request ''GetAbility'' (JObj []) None,
          Request ''GetAiCfg'' (JObj [(''channel'', JNum (Num 0))]) (Some (Num 1))]),
        (Num 0, Inr [], [])]
   \<and> count_command ''GetAbility''
        (issued_for (Num 0) (calls (\<lambda>evs c p a. Inl (Error ''offline'')) [Num 0, Num 0] fresh)) = 1
   \<and> count_command ''GetAiCfg''
        (issued_for (Num 0) (calls (\<lambda>evs c p a. Inl (Error ''offline'')) [Num 0, Num 0] fresh)) = 1
   \<and> tier1 (\<lambda>evs c p a. Inl (Error ''offline'')) (Num 0) fresh = []"
proof -
  let ?T = "\<lambda>evs c p a. Inl (Error ''offline'') :: error + jsval"
  have run: "calls ?T [Num 0, Num 0] fresh
     = [(Num 0, Inr [],
         [Request ''GetAbility'' (JObj []) None,
          Request ''GetAiCfg'' (JObj [(''channel'', JNum (Num 0))]) (Some (Num 1))]),
        (Num 0, Inr [], [])]"
    by (simp add: failing_first_call failing_second_call issued_def) (simp add: fresh_def)
  have fallback: "0 < count_command ''GetAiCfg'' (issued fresh (snd (getSupportedAiTypes ?T (Num 0) fresh)))"
    by (simp add: failing_first_call issued_def count_command_simps) (simp add: fresh_def count_command_simps)
  show ?thesis
    using getSupportedAiTypes_memoized [of "Num 0" ?T "[Num 0, Num 0]" fresh fresh] fallback
    unfolding run
    by (simp add: issued_for_def count_command_simps)
qed

end
